theory Spec2Isabelle
  imports Complex_Main "HOL-Library.Word"
begin

section \<open>Conventions of the embedding\<close>

text \<open>
  JavaScript numbers that hold counts, indices and byte values are \<open>nat\<close> or \<open>int\<close>;
  numbers that hold coordinates, brightness values and time stamps are \<open>real\<close>
  (the rounding of IEEE doubles and of \<open>Float32Array\<close> stores is not modelled).
  An exception thrown by the source is a value \<open>Inl e\<close> of the result type.
\<close>

datatype js_error = TypeError | RangeError | IndexSizeError | NoFramesFound

section \<open>Pixel surfaces (the browser's 2D canvas)\<close>

text \<open>
  A canvas bitmap and an \<open>ImageData\<close> object are both a width, a height and a
  row-major list of RGBA pixels. The operations below are the browser's, written after
  the HTML canvas standard; the colour arithmetic of source-over compositing is left to
  a parameter \<open>over src dst\<close>.
\<close>

type_synonym rgba = "nat \<times> nat \<times> nat \<times> nat"

record surface =
  s_width :: nat
  s_height :: nat
  s_data :: "rgba list"

definition transparent :: rgba where
  "transparent = (0, 0, 0, 0)"

definition blankSurface :: "nat \<Rightarrow> nat \<Rightarrow> surface" where
  "blankSurface w h = \<lparr>s_width = w, s_height = h, s_data = replicate (w * h) transparent\<rparr>"

definition pixelAt :: "surface \<Rightarrow> nat \<Rightarrow> nat \<Rightarrow> rgba" where
  "pixelAt s x y = s_data s ! (y * s_width s + x)"

definition inRect :: "nat \<Rightarrow> nat \<Rightarrow> nat \<Rightarrow> nat \<Rightarrow> nat \<Rightarrow> nat \<Rightarrow> bool" where
  "inRect rx ry rw rh x y \<longleftrightarrow> rx \<le> x \<and> x < rx + rw \<and> ry \<le> y \<and> y < ry + rh"

definition mapPixels :: "(nat \<Rightarrow> nat \<Rightarrow> rgba \<Rightarrow> rgba) \<Rightarrow> surface \<Rightarrow> surface" where
  "mapPixels f s =
     s\<lparr>s_data := map (\<lambda>i. f (i mod s_width s) (i div s_width s) (s_data s ! i))
                      [0..<length (s_data s)]\<rparr>"

definition clearRect :: "nat \<Rightarrow> nat \<Rightarrow> nat \<Rightarrow> nat \<Rightarrow> surface \<Rightarrow> surface" where
  "clearRect rx ry rw rh s =
     mapPixels (\<lambda>x y p. if inRect rx ry rw rh x y then transparent else p) s"

definition putImageData :: "surface \<Rightarrow> nat \<Rightarrow> nat \<Rightarrow> surface \<Rightarrow> surface" where
  "putImageData img dx dy s =
     mapPixels (\<lambda>x y p. if inRect dx dy (s_width img) (s_height img) x y
                          then pixelAt img (x - dx) (y - dy) else p) s"

definition drawImage ::
  "(rgba \<Rightarrow> rgba \<Rightarrow> rgba) \<Rightarrow> surface \<Rightarrow> nat \<Rightarrow> nat \<Rightarrow> surface \<Rightarrow> surface" where
  "drawImage over src dx dy s =
     mapPixels (\<lambda>x y p. if inRect dx dy (s_width src) (s_height src) x y
                          then over (pixelAt src (x - dx) (y - dy)) p else p) s"

section \<open>GifPlayer\<close>

record frame_dims =
  d_width :: nat
  d_height :: nat
  d_top :: nat
  d_left :: nat

text \<open>
  A decompressed frame. The patch of the source is a byte array of four bytes per pixel;
  here it is the list of its pixels.
\<close>

record DecompressedFrame =
  dims :: frame_dims
  patch :: "rgba list"
  delay :: int
  disposalType :: nat

record GifPlayer =
  frames :: "DecompressedFrame list"
  currentIndex :: nat
  lastFrameTime :: real
  frameCanvas :: surface
  patchCanvas :: surface
  cachedPatchData :: "surface option"
  cachedPatchW :: nat
  cachedPatchH :: nat
  gp_width :: nat
  gp_height :: nat

text \<open>The state a constructor call leaves: two fresh canvases of the default size.\<close>

definition newGifPlayer :: GifPlayer where
  "newGifPlayer =
     \<lparr>frames = [], currentIndex = 0, lastFrameTime = 0,
      frameCanvas = blankSurface 300 150, patchCanvas = blankSurface 300 150,
      cachedPatchData = None, cachedPatchW = 0, cachedPatchH = 0,
      gp_width = 0, gp_height = 0\<rparr>"

text \<open>
  The first block of \<open>renderFrame\<close>: the scratch image data is created again when
  there is none or the patch size changed. \<open>createImageData\<close> throws on a zero size.
\<close>

definition ensurePatchData :: "frame_dims \<Rightarrow> GifPlayer \<Rightarrow> js_error + GifPlayer" where
  "ensurePatchData d st =
     (if cachedPatchData st = None \<or> cachedPatchW st \<noteq> d_width d \<or> cachedPatchH st \<noteq> d_height d
      then (if d_width d = 0 \<or> d_height d = 0 then Inl IndexSizeError
            else Inr (st\<lparr>patchCanvas := blankSurface (d_width d) (d_height d),
                         cachedPatchData := Some (blankSurface (d_width d) (d_height d)),
                         cachedPatchW := d_width d,
                         cachedPatchH := d_height d\<rparr>))
      else Inr st)"

text \<open>
  The disposal step of \<open>renderFrame\<close>: only for a target index above zero, and only
  when the frame before it in the array has disposal type 2.
\<close>

definition disposePrevious :: "nat \<Rightarrow> GifPlayer \<Rightarrow> GifPlayer" where
  "disposePrevious index st =
     (if index > 0 then
        (let prevFrame = frames st ! (index - 1) in
         if disposalType prevFrame = 2
         then st\<lparr>frameCanvas :=
                   clearRect (d_left (dims prevFrame)) (d_top (dims prevFrame))
                             (d_width (dims prevFrame)) (d_height (dims prevFrame))
                             (frameCanvas st)\<rparr>
         else st)
      else st)"

definition renderFrame ::
  "(rgba \<Rightarrow> rgba \<Rightarrow> rgba) \<Rightarrow> nat \<Rightarrow> GifPlayer \<Rightarrow> js_error + GifPlayer" where
  "renderFrame over index st =
     (if length (frames st) \<le> index then Inl TypeError
      else
        let frame = frames st ! index; d = dims frame in
        case ensurePatchData d st of
          Inl e \<Rightarrow> Inl e
        | Inr st1 \<Rightarrow>
            (case cachedPatchData st1 of
               None \<Rightarrow> Inl TypeError
             | Some img \<Rightarrow>
                 if length (s_data img) < length (patch frame) then Inl RangeError
                 else
                   let img' = img\<lparr>s_data := patch frame @ drop (length (patch frame)) (s_data img)\<rparr>;
                       st2 = st1\<lparr>cachedPatchData := Some img',
                                 patchCanvas := putImageData img' 0 0 (patchCanvas st1)\<rparr>;
                       st3 = disposePrevious index st2
                   in Inr (st3\<lparr>frameCanvas :=
                                  drawImage over (patchCanvas st3) (d_left d) (d_top d)
                                            (frameCanvas st3)\<rparr>)))"

text \<open>Line 87 of the player: the delay used for a frame.\<close>

definition frameDelay :: "DecompressedFrame \<Rightarrow> int" where
  "frameDelay frame = max 20 ((if delay frame = 0 then 10 else delay frame) * 10)"

text \<open>\<open>advance\<close>; the reading of the clock, \<open>performance.now()\<close>, is the argument \<open>now\<close>.\<close>

definition advance ::
  "(rgba \<Rightarrow> rgba \<Rightarrow> rgba) \<Rightarrow> real \<Rightarrow> GifPlayer \<Rightarrow> js_error + GifPlayer" where
  "advance over now st =
     (if length (frames st) \<le> 1 then Inr st
      else if length (frames st) \<le> currentIndex st then Inl TypeError
      else
        let frame = frames st ! currentIndex st;
            dl = frameDelay frame
        in if real_of_int dl \<le> now - lastFrameTime st then
             (let st1 = st\<lparr>currentIndex := (currentIndex st + 1) mod length (frames st)\<rparr> in
              case renderFrame over (currentIndex st1) st1 of
                Inl e \<Rightarrow> Inl e
              | Inr st2 \<Rightarrow> Inr (st2\<lparr>lastFrameTime := now\<rparr>))
           else Inr st)"

text \<open>
  \<open>load\<close>; the decoder's output (the frames and the logical screen size) and the clock
  are arguments.
\<close>

definition load ::
  "(rgba \<Rightarrow> rgba \<Rightarrow> rgba) \<Rightarrow> DecompressedFrame list \<Rightarrow> nat \<Rightarrow> nat \<Rightarrow> real \<Rightarrow> GifPlayer
     \<Rightarrow> js_error + GifPlayer" where
  "load over fs w h now st =
     (if length fs = 0 then Inl NoFramesFound
      else
        renderFrame over 0
          (st\<lparr>frames := fs, gp_width := w, gp_height := h, currentIndex := 0,
              lastFrameTime := now,
              frameCanvas := clearRect 0 0 w h (blankSurface w h),
              cachedPatchData := None\<rparr>))"

text \<open>
  A frame as the decoder builds it: a patch of positive size with one pixel for each
  position of its rectangle.
\<close>

definition frameOk :: "DecompressedFrame \<Rightarrow> bool" where
  "frameOk f \<longleftrightarrow>
     d_width (dims f) \<noteq> 0 \<and> d_height (dims f) \<noteq> 0 \<and>
     length (patch f) = d_width (dims f) * d_height (dims f)"

text \<open>The patch of a frame as a surface of the frame's size.\<close>

definition frameSurface :: "DecompressedFrame \<Rightarrow> surface" where
  "frameSurface f =
     \<lparr>s_width = d_width (dims f), s_height = d_height (dims f), s_data = patch f\<rparr>"

text \<open>
  The invariant of a player after \<open>load\<close>: the index points at a frame, the frames are
  well formed, and the scratch image data and the patch canvas, once created, have the
  cached size.
\<close>

definition patchDataOk :: "GifPlayer \<Rightarrow> bool" where
  "patchDataOk st \<longleftrightarrow>
     (case cachedPatchData st of
        None \<Rightarrow> True
      | Some img \<Rightarrow>
          s_width img = cachedPatchW st \<and> s_height img = cachedPatchH st \<and>
          length (s_data img) = cachedPatchW st * cachedPatchH st \<and>
          s_width (patchCanvas st) = cachedPatchW st \<and>
          s_height (patchCanvas st) = cachedPatchH st \<and>
          length (s_data (patchCanvas st)) = cachedPatchW st * cachedPatchH st)"

definition surfaceOk :: "surface \<Rightarrow> bool" where
  "surfaceOk s \<longleftrightarrow> length (s_data s) = s_width s * s_height s"

definition playerOk :: "GifPlayer \<Rightarrow> bool" where
  "playerOk st \<longleftrightarrow>
     currentIndex st < length (frames st) \<and> list_all frameOk (frames st) \<and> patchDataOk st \<and>
     surfaceOk (frameCanvas st)"

text \<open>
  The composite surface after frame \<open>index\<close> was rendered on \<open>canvas\<close>: the disposal
  of the frame before it in the array, then the patch drawn at its position.
\<close>

definition composited ::
  "(rgba \<Rightarrow> rgba \<Rightarrow> rgba) \<Rightarrow> DecompressedFrame list \<Rightarrow> nat \<Rightarrow> surface \<Rightarrow> surface" where
  "composited over fs index canvas =
     drawImage over (frameSurface (fs ! index)) (d_left (dims (fs ! index))) (d_top (dims (fs ! index)))
       (if 0 < index \<and> disposalType (fs ! (index - 1)) = 2
        then clearRect (d_left (dims (fs ! (index - 1)))) (d_top (dims (fs ! (index - 1))))
               (d_width (dims (fs ! (index - 1)))) (d_height (dims (fs ! (index - 1)))) canvas
        else canvas)"

text \<open>The whole player state after frame \<open>index\<close> was rendered.\<close>

definition rendered :: "(rgba \<Rightarrow> rgba \<Rightarrow> rgba) \<Rightarrow> nat \<Rightarrow> GifPlayer \<Rightarrow> GifPlayer" where
  "rendered over index st =
     st\<lparr>frameCanvas := composited over (frames st) index (frameCanvas st),
        patchCanvas := frameSurface (frames st ! index),
        cachedPatchData := Some (frameSurface (frames st ! index)),
        cachedPatchW := d_width (dims (frames st ! index)),
        cachedPatchH := d_height (dims (frames st ! index))\<rparr>"

text \<open>
  Example data: a compositing function under which an opaque or partly opaque source
  pixel replaces the destination, and two players on a canvas two pixels wide whose
  frames are one pixel each.
\<close>

definition exOver :: "rgba \<Rightarrow> rgba \<Rightarrow> rgba" where
  "exOver src dst = (if snd (snd (snd src)) = 0 then dst else src)"

definition exRed :: rgba where
  "exRed = (255, 0, 0, 255)"

definition exBlue :: rgba where
  "exBlue = (0, 0, 255, 255)"

definition exFrame :: "nat \<Rightarrow> rgba \<Rightarrow> int \<Rightarrow> nat \<Rightarrow> DecompressedFrame" where
  "exFrame left colour dl disposal =
     \<lparr>dims = \<lparr>d_width = 1, d_height = 1, d_top = 0, d_left = left\<rparr>,
      patch = [colour], delay = dl, disposalType = disposal\<rparr>"

definition exPlayer :: "DecompressedFrame list \<Rightarrow> nat \<Rightarrow> rgba list \<Rightarrow> GifPlayer" where
  "exPlayer fs cur canvas =
     \<lparr>frames = fs, currentIndex = cur, lastFrameTime = 0,
      frameCanvas = \<lparr>s_width = 2, s_height = 1, s_data = canvas\<rparr>,
      patchCanvas = frameSurface (fs ! cur),
      cachedPatchData = Some (frameSurface (fs ! cur)),
      cachedPatchW = 1, cachedPatchH = 1, gp_width = 2, gp_height = 1\<rparr>"

section \<open>BrightnessSampler (imageProcessor.ts)\<close>

record MediaTransform =
  mt_scale :: real
  mt_offsetX :: real
  mt_offsetY :: real

text \<open>
  The media as \<open>computeBrightnessGrid\<close> sees it: the intrinsic size that
  \<open>getMediaSize\<close> returns and the bytes that \<open>getImageData\<close> returns after the
  media was drawn on the cleared offscreen canvas (four bytes per pixel, each in 0..255).
\<close>

record media =
  mediaW :: nat
  mediaH :: nat
  pixels :: "nat list"

record BrightnessGridResult =
  grid :: "real list"
  cols :: int
  rows :: int
  imgOffsetX :: real
  imgOffsetY :: real
  imgDrawWidth :: real
  imgDrawHeight :: real

text \<open>The module-level grid buffer that \<open>getGridBuffer\<close> reuses.\<close>

record grid_cache =
  cachedGrid :: "real list option"
  cachedGridSize :: int

definition getGridBuffer :: "int \<Rightarrow> grid_cache \<Rightarrow> js_error + (real list \<times> grid_cache)" where
  "getGridBuffer n c =
     (case (if cachedGrid c = None \<or> cachedGridSize c \<noteq> n
            then (if n < 0 then Inl RangeError
                  else Inr \<lparr>cachedGrid = Some (replicate (nat n) 0), cachedGridSize = n\<rparr>)
            else Inr c) of
        Inl e \<Rightarrow> Inl e
      | Inr c' \<Rightarrow> (case cachedGrid c' of None \<Rightarrow> Inl TypeError | Some g \<Rightarrow> Inr (g, c')))"

text \<open>
  \<open>x | 0\<close>: the number is truncated towards zero and wrapped into the signed 32-bit
  range.
\<close>

definition toInt32 :: "real \<Rightarrow> int" where
  "toInt32 x =
     (let t = (if 0 \<le> x then \<lfloor>x\<rfloor> else \<lceil>x\<rceil>);
          m = t mod 4294967296
      in if 2147483648 \<le> m then m - 4294967296 else m)"

text \<open>The source coordinate a grid cell maps to (lines 251 to 256).\<close>

definition cellMx :: "real \<Rightarrow> real \<Rightarrow> real \<Rightarrow> int \<Rightarrow> int" where
  "cellMx spacing finalOffsetX scaleX col =
     (let vx = real_of_int col * spacing + spacing * 0.5
      in toInt32 ((vx - finalOffsetX) * scaleX))"

definition cellMy :: "real \<Rightarrow> real \<Rightarrow> real \<Rightarrow> int \<Rightarrow> int" where
  "cellMy spacing finalOffsetY scaleY row =
     (let vy = real_of_int row * spacing + spacing * 0.5
      in toInt32 ((vy - finalOffsetY) * scaleY))"

text \<open>The value the loop body stores for the pixel at \<open>(mx, my)\<close> (lines 258 to 283).\<close>

definition sampleBrightness :: "media \<Rightarrow> real \<Rightarrow> real \<Rightarrow> real \<Rightarrow> int \<Rightarrow> int \<Rightarrow> real" where
  "sampleBrightness m contrast brightness bgBrightness mx my =
     (if mx < 0 \<or> int (mediaW m) \<le> mx \<or> my < 0 \<or> int (mediaH m) \<le> my then bgBrightness
      else
        let idx = nat ((my * int (mediaW m) + mx) * 4);
            a = pixels m ! (idx + 3)
        in if a < 10 then bgBrightness
           else
             let r = pixels m ! idx;
                 g = pixels m ! (idx + 1);
                 b = pixels m ! (idx + 2);
                 lum = (0.299 * real r + 0.587 * real g + 0.114 * real b) / 255;
                 lum1 = (if a < 255
                         then (let alpha = real a / 255
                               in lum * alpha + bgBrightness * (1 - alpha))
                         else lum);
                 lum2 = ((lum1 - 0.5) * contrast) + 0.5 + brightness / 255
             in if lum2 < 0 then 0 else if 1 < lum2 then 1 else lum2)"

definition cellBrightness ::
  "media \<Rightarrow> real \<Rightarrow> real \<Rightarrow> real \<Rightarrow> real \<Rightarrow> real \<Rightarrow> real \<Rightarrow> real \<Rightarrow> real \<Rightarrow> int \<Rightarrow> int \<Rightarrow> real"
  where
  "cellBrightness m spacing contrast brightness bgBrightness finalOffsetX finalOffsetY scaleX scaleY
     row col =
     sampleBrightness m contrast brightness bgBrightness
       (cellMx spacing finalOffsetX scaleX col) (cellMy spacing finalOffsetY scaleY row)"

text \<open>
  The two nested loops, writing \<open>grid[row * cols + col]\<close>. A store outside the array is
  ignored by a typed array, as by \<open>list_update\<close>.
\<close>

definition fillRow :: "(int \<Rightarrow> int \<Rightarrow> real) \<Rightarrow> int \<Rightarrow> int \<Rightarrow> real list \<Rightarrow> real list" where
  "fillRow cell ncols row g =
     fold (\<lambda>col g'. g'[nat (row * ncols + col) := cell row col]) [0..ncols - 1] g"

definition fillGrid :: "(int \<Rightarrow> int \<Rightarrow> real) \<Rightarrow> int \<Rightarrow> int \<Rightarrow> real list \<Rightarrow> real list" where
  "fillGrid cell ncols nrows g = fold (fillRow cell ncols) [0..nrows - 1] g"

definition identityTransform :: MediaTransform where
  "identityTransform = \<lparr>mt_scale = 1, mt_offsetX = 0, mt_offsetY = 0\<rparr>"

text \<open>
  \<open>computeBrightnessGrid\<close>. An absent \<open>mediaTransform\<close> or \<open>bgBrightness\<close> argument is
  \<open>None\<close>. The result is the record returned together with the grid cache after the call.
\<close>

text \<open>The default value of the parameter \<open>bgBrightness\<close>.\<close>

definition bgOrDefault :: "real option \<Rightarrow> real" where
  "bgOrDefault bgArg = (case bgArg of None \<Rightarrow> 0 | Some v \<Rightarrow> v)"

definition computeBrightnessGrid ::
  "media \<Rightarrow> real \<Rightarrow> real \<Rightarrow> real \<Rightarrow> real \<Rightarrow> real \<Rightarrow> MediaTransform option \<Rightarrow> real option
     \<Rightarrow> grid_cache \<Rightarrow> js_error + (BrightnessGridResult \<times> grid_cache)" where
  "computeBrightnessGrid m canvasWidth canvasHeight spacing contrast brightness mediaTransform
     bgArg cache =
     (let bgBrightness = bgOrDefault bgArg in
      if mediaW m = 0 \<or> mediaH m = 0
      then Inr (\<lparr>grid = [], cols = 0, rows = 0, imgOffsetX = 0, imgOffsetY = 0,
                 imgDrawWidth = 0, imgDrawHeight = 0\<rparr>, cache)
      else
        let imgAspect = real (mediaW m) / real (mediaH m);
            canvasAspect = canvasWidth / canvasHeight;
            drawW = (if canvasAspect < imgAspect then canvasWidth else canvasHeight * imgAspect);
            drawH = (if canvasAspect < imgAspect then canvasWidth / imgAspect else canvasHeight);
            offsetX = (if canvasAspect < imgAspect then 0 else (canvasWidth - drawW) / 2);
            offsetY = (if canvasAspect < imgAspect then (canvasHeight - drawH) / 2 else 0);
            mt = (case mediaTransform of None \<Rightarrow> identityTransform | Some t \<Rightarrow> t);
            scaledDrawW = drawW * mt_scale mt;
            scaledDrawH = drawH * mt_scale mt;
            finalOffsetX = offsetX + (drawW - scaledDrawW) / 2 + mt_offsetX mt;
            finalOffsetY = offsetY + (drawH - scaledDrawH) / 2 + mt_offsetY mt;
            scaleX = real (mediaW m) / scaledDrawW;
            scaleY = real (mediaH m) / scaledDrawH;
            ncols = \<lceil>canvasWidth / spacing\<rceil>;
            nrows = \<lceil>canvasHeight / spacing\<rceil>
        in case getGridBuffer (ncols * nrows) cache of
             Inl e \<Rightarrow> Inl e
           | Inr (g, cache') \<Rightarrow>
               (let g' = fillGrid (cellBrightness m spacing contrast brightness bgBrightness
                                     finalOffsetX finalOffsetY scaleX scaleY) ncols nrows g
                in Inr (\<lparr>grid = g', cols = ncols, rows = nrows,
                          imgOffsetX = finalOffsetX, imgOffsetY = finalOffsetY,
                          imgDrawWidth = scaledDrawW, imgDrawHeight = scaledDrawH\<rparr>,
                        cache'\<lparr>cachedGrid := Some g'\<rparr>)))"

text \<open>
  The invariant of the grid cache: a cached buffer has the cached size. It holds for the
  empty cache and every call keeps it.
\<close>

definition emptyGridCache :: grid_cache where
  "emptyGridCache = \<lparr>cachedGrid = None, cachedGridSize = 0\<rparr>"


definition inUnit :: "real \<Rightarrow> bool" where
  "inUnit v \<longleftrightarrow> 0 \<le> v \<and> v \<le> 1"

definition gridCacheInUnit :: "grid_cache \<Rightarrow> bool" where
  "gridCacheInUnit c \<longleftrightarrow>
     (case cachedGrid c of None \<Rightarrow> True | Some g \<Rightarrow> list_all inUnit g)"

text \<open>Vocabulary for the value of a cell: the pixel a cell lands on and its parts.\<close>

definition outOfBounds :: "media \<Rightarrow> int \<Rightarrow> int \<Rightarrow> bool" where
  "outOfBounds m mx my \<longleftrightarrow> mx < 0 \<or> int (mediaW m) \<le> mx \<or> my < 0 \<or> int (mediaH m) \<le> my"

definition pixelByte :: "media \<Rightarrow> int \<Rightarrow> int \<Rightarrow> nat \<Rightarrow> nat" where
  "pixelByte m mx my k = pixels m ! (nat ((my * int (mediaW m) + mx) * 4) + k)"

definition pixelAlpha :: "media \<Rightarrow> int \<Rightarrow> int \<Rightarrow> nat" where
  "pixelAlpha m mx my = pixelByte m mx my 3"

definition pixelLuminance :: "media \<Rightarrow> int \<Rightarrow> int \<Rightarrow> real" where
  "pixelLuminance m mx my =
     (0.299 * real (pixelByte m mx my 0) + 0.587 * real (pixelByte m mx my 1)
        + 0.114 * real (pixelByte m mx my 2)) / 255"

definition clamp01 :: "real \<Rightarrow> real" where
  "clamp01 v = (if v < 0 then 0 else if 1 < v then 1 else v)"

definition adjusted :: "real \<Rightarrow> real \<Rightarrow> real \<Rightarrow> real" where
  "adjusted contrast brightness lum = clamp01 (((lum - 0.5) * contrast) + 0.5 + brightness / 255)"

text \<open>Example data: a medium of one pixel, white with alpha 5.\<close>

definition exMedia :: "nat \<Rightarrow> media" where
  "exMedia alpha = \<lparr>mediaW = 1, mediaH = 1, pixels = [255, 255, 255, alpha]\<rparr>"

section \<open>ShapeRenderer: the raster pass (shapeDrawer.ts and the renderer's \<open>render\<close>)\<close>

datatype ShapeType = Circle | Square | TriangleUp | Text | Custom

record BrightnessMapping =
  invert :: bool
  minSize :: real
  maxSize :: real
  contrast :: real
  brightness :: real

record ViewBox =
  vb_width :: real
  vb_height :: real

text \<open>The fields of the application state that the two drawing passes read.\<close>

record AppState =
  shape :: ShapeType
  customSvgPath :: "string option"
  customSvgViewBox :: "ViewBox option"
  customTextChar :: string
  density :: real
  mapping :: BrightnessMapping
  background :: string
  foreground :: string

text \<open>
  The raster pass is modelled by the calls it makes on the 2D context, in order. A
  \<open>Path2D\<close> batch is the list of its path commands. The one-entry cache of the
  \<open>Path2D\<close> built from the custom path only saves building it again: filling the
  custom path is the call \<open>FillPath2D\<close> with the path data.
\<close>

datatype pathCmd =
    MoveTo real real
  | LineTo real real
  | Arc real real real real real
  | ClosePath

datatype canvasCall =
    BeginPath
  | Path pathCmd
  | Fill
  | FillRect real real real real
  | SetFillStyle string
  | SetFont real
  | SetTextAlign string
  | SetTextBaseline string
  | FillText string real real
  | Save
  | Restore
  | Translate real real
  | Scale real real
  | FillPath2D string
  | FillBatch "pathCmd list"

definition TWO_PI :: real where
  "TWO_PI = pi * 2"

definition SQRT3 :: real where
  "SQRT3 = sqrt 3"

definition drawCircle :: "real \<Rightarrow> real \<Rightarrow> real \<Rightarrow> canvasCall list" where
  "drawCircle cx cy r = [BeginPath, Path (Arc cx cy r 0 TWO_PI), Fill]"

definition drawSquare :: "real \<Rightarrow> real \<Rightarrow> real \<Rightarrow> canvasCall list" where
  "drawSquare cx cy r = [FillRect (cx - r) (cy - r) (r * 2) (r * 2)]"

definition drawTriangleUp :: "real \<Rightarrow> real \<Rightarrow> real \<Rightarrow> canvasCall list" where
  "drawTriangleUp cx cy r =
     (let h = r * SQRT3
      in [BeginPath, Path (MoveTo cx (cy - r)), Path (LineTo (cx - h / 2) (cy + r)),
          Path (LineTo (cx + h / 2) (cy + r)), Path ClosePath, Fill])"

definition drawText :: "real \<Rightarrow> real \<Rightarrow> real \<Rightarrow> string \<Rightarrow> canvasCall list" where
  "drawText cx cy r char =
     (let fontSize = r * 2
      in if fontSize < 1 then []
         else [SetFont fontSize, SetTextAlign ''center'', SetTextBaseline ''middle'',
               FillText char cx cy])"

definition drawCustomSvg :: "real \<Rightarrow> real \<Rightarrow> real \<Rightarrow> string \<Rightarrow> ViewBox \<Rightarrow> canvasCall list" where
  "drawCustomSvg cx cy r pathData viewBox =
     (let scale = (r * 2) / max (vb_width viewBox) (vb_height viewBox)
      in [Save, Translate cx cy, Scale scale scale,
          Translate (- vb_width viewBox / 2) (- vb_height viewBox / 2),
          FillPath2D pathData, Restore])"

text \<open>
  \<open>customSvgPath && customSvgViewBox\<close>: a path that is \<open>null\<close> or the empty string is
  falsy, a view box is falsy only when it is \<open>null\<close>.
\<close>

definition customPathOf :: "string option \<Rightarrow> ViewBox option \<Rightarrow> (string \<times> ViewBox) option" where
  "customPathOf p v =
     (case p of
        None \<Rightarrow> None
      | Some d \<Rightarrow> (if d = [] then None
                   else (case v of None \<Rightarrow> None | Some vb \<Rightarrow> Some (d, vb))))"

definition drawShape ::
  "ShapeType \<Rightarrow> real \<Rightarrow> real \<Rightarrow> real \<Rightarrow> string option \<Rightarrow> ViewBox option \<Rightarrow> string
     \<Rightarrow> canvasCall list" where
  "drawShape sh cx cy r svgPath svgViewBox textChar =
     (case sh of
        Circle \<Rightarrow> drawCircle cx cy r
      | Square \<Rightarrow> drawSquare cx cy r
      | TriangleUp \<Rightarrow> drawTriangleUp cx cy r
      | Text \<Rightarrow> drawText cx cy r (if textChar = [] then ''*'' else textChar)
      | Custom \<Rightarrow>
          (case customPathOf svgPath svgViewBox of
             Some (d, vb) \<Rightarrow> drawCustomSvg cx cy r d vb
           | None \<Rightarrow> drawCircle cx cy r))"

text \<open>
  The radius of a cell, as \<open>batchDrawCircles\<close>, \<open>batchDrawTriangles\<close> and the loop of
  \<open>render\<close> compute it (the three copies are the same text).
\<close>

definition cellRadius :: "real \<Rightarrow> real \<Rightarrow> real \<Rightarrow> bool \<Rightarrow> real \<Rightarrow> real" where
  "cellRadius maxRadius minScale maxScale invertFlag b0 =
     (let b = (if invertFlag then 1 - b0 else b0);
          sz = minScale + b * (maxScale - minScale);
          cs = (if sz < 0 then 0 else if 1 < sz then 1 else sz)
      in maxRadius * cs)"

text \<open>
  Two nested \<open>for\<close> loops, rows outside and columns inside, whose body appends to an
  output.
\<close>

definition forCells :: "(int \<Rightarrow> int \<Rightarrow> 'a list) \<Rightarrow> int \<Rightarrow> int \<Rightarrow> 'a list" where
  "forCells body ncols nrows =
     concat (map (\<lambda>row. concat (map (\<lambda>col. body row col) [0..ncols - 1])) [0..nrows - 1])"

definition gridAt :: "real list \<Rightarrow> int \<Rightarrow> int \<Rightarrow> int \<Rightarrow> real" where
  "gridAt g ncols row col = g ! nat (row * ncols + col)"

definition circleCell ::
  "real list \<Rightarrow> int \<Rightarrow> real \<Rightarrow> real \<Rightarrow> real \<Rightarrow> real \<Rightarrow> bool \<Rightarrow> int \<Rightarrow> int \<Rightarrow> pathCmd list" where
  "circleCell g ncols spacing maxRadius minScale maxScale invertFlag row col =
     (let r = cellRadius maxRadius minScale maxScale invertFlag (gridAt g ncols row col)
      in if r < 0.3 then []
         else (let cx = real_of_int col * spacing + spacing * 0.5;
                   cy = real_of_int row * spacing + spacing * 0.5
               in [MoveTo (cx + r) cy, Arc cx cy r 0 TWO_PI]))"

definition batchDrawCircles ::
  "real list \<Rightarrow> int \<Rightarrow> int \<Rightarrow> real \<Rightarrow> real \<Rightarrow> real \<Rightarrow> real \<Rightarrow> bool \<Rightarrow> canvasCall list" where
  "batchDrawCircles g ncols nrows spacing maxRadius minScale maxScale invertFlag =
     [FillBatch (forCells (circleCell g ncols spacing maxRadius minScale maxScale invertFlag) ncols nrows)]"

definition triangleCell ::
  "real list \<Rightarrow> int \<Rightarrow> real \<Rightarrow> real \<Rightarrow> real \<Rightarrow> real \<Rightarrow> bool \<Rightarrow> int \<Rightarrow> int \<Rightarrow> pathCmd list" where
  "triangleCell g ncols spacing maxRadius minScale maxScale invertFlag row col =
     (let r = cellRadius maxRadius minScale maxScale invertFlag (gridAt g ncols row col)
      in if r < 0.3 then []
         else (let cx = real_of_int col * spacing + spacing * 0.5;
                   cy = real_of_int row * spacing + spacing * 0.5;
                   h = r * SQRT3
               in [MoveTo cx (cy - r), LineTo (cx - h / 2) (cy + r),
                   LineTo (cx + h / 2) (cy + r), ClosePath]))"

definition batchDrawTriangles ::
  "real list \<Rightarrow> int \<Rightarrow> int \<Rightarrow> real \<Rightarrow> real \<Rightarrow> real \<Rightarrow> real \<Rightarrow> bool \<Rightarrow> canvasCall list" where
  "batchDrawTriangles g ncols nrows spacing maxRadius minScale maxScale invertFlag =
     [FillBatch (forCells (triangleCell g ncols spacing maxRadius minScale maxScale invertFlag) ncols nrows)]"

text \<open>The body of the loop in \<open>render\<close> for the shapes that are not batched.\<close>

definition shapeCell ::
  "AppState \<Rightarrow> real list \<Rightarrow> int \<Rightarrow> real \<Rightarrow> real \<Rightarrow> real \<Rightarrow> real \<Rightarrow> int \<Rightarrow> int \<Rightarrow> canvasCall list"
  where
  "shapeCell st g ncols spacing maxRadius minScale maxScale row col =
     (let radius = cellRadius maxRadius minScale maxScale (invert (mapping st))
                     (gridAt g ncols row col)
      in if radius < 0.3 then []
         else (let cx = real_of_int col * spacing + spacing * 0.5;
                   cy = real_of_int row * spacing + spacing * 0.5
               in drawShape (shape st) cx cy radius (customSvgPath st) (customSvgViewBox st)
                    (customTextChar st)))"

text \<open>
  \<open>render\<close> from the line that fixes the spacing to the end of the drawing loops, given
  the brightness grid that \<open>computeBrightnessGrid\<close> returned.
\<close>

definition renderShapes :: "AppState \<Rightarrow> real list \<Rightarrow> int \<Rightarrow> int \<Rightarrow> canvasCall list" where
  "renderShapes st g ncols nrows =
     (let spacing = density st;
          maxRadius = spacing * 0.48;
          minScale = minSize (mapping st) / 100;
          maxScale = maxSize (mapping st) / 100
      in SetFillStyle (foreground st) #
         (if shape st = Circle
          then batchDrawCircles g ncols nrows spacing maxRadius minScale maxScale
                 (invert (mapping st))
          else if shape st = TriangleUp
          then batchDrawTriangles g ncols nrows spacing maxRadius minScale maxScale
                 (invert (mapping st))
          else forCells (shapeCell st g ncols spacing maxRadius minScale maxScale) ncols nrows))"


section \<open>ShapeRenderer: the vector export (\<open>toSVG\<close>)\<close>

text \<open>
  An element of the document, with the numbers its attributes print. \<open>toFixed d\<close>
  rounds to \<open>d\<close> decimals, a tie away from zero, and \<open>parseFloat\<close> reads the rounded
  number back.
\<close>

datatype svgElement =
    SvgOpen real real
  | SvgBackground real real string
  | SvgCircle real real real string
  | SvgRect real real real real string
  | SvgPolygon "(real \<times> real) list" string
  | SvgText real real real string string
  | SvgPath string real real real string
  | SvgClose

definition toFixed :: "nat \<Rightarrow> real \<Rightarrow> real" where
  "toFixed d x =
     (if x < 0 then - (real_of_int \<lfloor>(- x) * 10 ^ d + 1 / 2\<rfloor> / 10 ^ d)
      else real_of_int \<lfloor>x * 10 ^ d + 1 / 2\<rfloor> / 10 ^ d)"

definition svgRadius :: "real \<Rightarrow> real \<Rightarrow> real \<Rightarrow> bool \<Rightarrow> real \<Rightarrow> real" where
  "svgRadius maxRadius minScale maxScale invertFlag b0 =
     (let b = (if invertFlag then 1 - b0 else b0);
          sz = minScale + b * (maxScale - minScale);
          clampedSize = max 0 (min 1 sz)
      in maxRadius * clampedSize)"

definition svgShape :: "AppState \<Rightarrow> real \<Rightarrow> real \<Rightarrow> real \<Rightarrow> svgElement list" where
  "svgShape st cx cy r =
     (let rs = toFixed 1 r in
      case shape st of
        Circle \<Rightarrow> [SvgCircle cx cy rs (foreground st)]
      | Square \<Rightarrow>
          (let x = toFixed 1 (cx - r); y = toFixed 1 (cy - r); s = toFixed 1 (r * 2)
           in [SvgRect x y s s (foreground st)])
      | TriangleUp \<Rightarrow>
          (let h2 = r * sqrt 3
           in [SvgPolygon [(cx, toFixed 1 (cy - r)),
                           (toFixed 1 (cx - h2 / 2), toFixed 1 (cy + r)),
                           (toFixed 1 (cx + h2 / 2), toFixed 1 (cy + r))] (foreground st)])
      | Text \<Rightarrow>
          (let fontSize = toFixed 1 (r * 2)
           in [SvgText cx cy fontSize (foreground st) (customTextChar st)])
      | Custom \<Rightarrow>
          (case customPathOf (customSvgPath st) (customSvgViewBox st) of
             Some (d, vb) \<Rightarrow>
               (let scale = (r * 2) / max (vb_width vb) (vb_height vb);
                    tx = cx - (vb_width vb * scale) / 2;
                    ty = cy - (vb_height vb * scale) / 2
                in [SvgPath d (toFixed 1 tx) (toFixed 1 ty) (toFixed 4 scale) (foreground st)])
           | None \<Rightarrow> [SvgCircle cx cy rs (foreground st)]))"

text \<open>The body of the loop in \<open>toSVG\<close>.\<close>

definition svgCell ::
  "AppState \<Rightarrow> real list \<Rightarrow> int \<Rightarrow> real \<Rightarrow> real \<Rightarrow> real \<Rightarrow> real \<Rightarrow> int \<Rightarrow> int \<Rightarrow> svgElement list"
  where
  "svgCell st g ncols spacing maxRadius minScale maxScale row col =
     (let r = svgRadius maxRadius minScale maxScale (invert (mapping st)) (gridAt g ncols row col)
      in if r < 0.3 then []
         else (let cx = toFixed 1 (real_of_int col * spacing + spacing / 2);
                   cy = toFixed 1 (real_of_int row * spacing + spacing / 2)
               in svgShape st cx cy r))"

text \<open>
  \<open>toSVG\<close> from the line that fixes the spacing, given the container size and the
  brightness grid.
\<close>

definition svgDocument ::
  "AppState \<Rightarrow> real \<Rightarrow> real \<Rightarrow> real list \<Rightarrow> int \<Rightarrow> int \<Rightarrow> svgElement list" where
  "svgDocument st w h g ncols nrows =
     (let spacing = density st;
          maxRadius = spacing * 0.48;
          minScale = minSize (mapping st) / 100;
          maxScale = maxSize (mapping st) / 100
      in [SvgOpen w h, SvgBackground w h (background st)] @
         forCells (svgCell st g ncols spacing maxRadius minScale maxScale) ncols nrows @
         [SvgClose])"




text \<open>Example data: a state with spacing 10 and the full size range.\<close>

definition exState :: "ShapeType \<Rightarrow> bool \<Rightarrow> AppState" where
  "exState sh invertFlag =
     \<lparr>shape = sh, customSvgPath = None, customSvgViewBox = None, customTextChar = ''A'',
      density = 10,
      mapping = \<lparr>invert = invertFlag, minSize = 0, maxSize = 100, contrast = 1, brightness = 0\<rparr>,
      background = ''#000000'', foreground = ''#ffffff''\<rparr>"

section \<open>GeometryParser: the binary mesh format (\<open>parseSTL\<close>)\<close>

text \<open>
  The buffer is a list of bytes. A \<open>float32\<close> is kept as the 32 bits read: nothing
  below computes with it.
\<close>

type_synonym byte = "8 word"

definition le32 :: "byte \<Rightarrow> byte \<Rightarrow> byte \<Rightarrow> byte \<Rightarrow> 32 word" where
  "le32 b0 b1 b2 b3 =
     ucast b0 + push_bit 8 (ucast b1) + push_bit 16 (ucast b2) + push_bit 24 (ucast b3)"

text \<open>
  \<open>DataView.getUint32(off, true)\<close> and \<open>DataView.getFloat32(off, true)\<close>: little-endian,
  a \<open>RangeError\<close> when the four bytes do not lie inside the buffer.
\<close>

definition getUint32 :: "byte list \<Rightarrow> nat \<Rightarrow> js_error + 32 word" where
  "getUint32 buf off =
     (if length buf < off + 4 then Inl RangeError
      else Inr (le32 (buf ! off) (buf ! (off + 1)) (buf ! (off + 2)) (buf ! (off + 3))))"

definition getFloat32 :: "byte list \<Rightarrow> nat \<Rightarrow> js_error + 32 word" where
  "getFloat32 buf off =
     (if length buf < off + 4 then Inl RangeError
      else Inr (le32 (buf ! off) (buf ! (off + 1)) (buf ! (off + 2)) (buf ! (off + 3))))"

record stl_geometry =
  position :: "32 word list"
  normal :: "32 word list"

text \<open>The inner loop over the three vertices of triangle \<open>i\<close>.\<close>

function stlVertexLoop ::
  "byte list \<Rightarrow> nat \<Rightarrow> nat \<Rightarrow> 32 word \<Rightarrow> 32 word \<Rightarrow> 32 word \<Rightarrow> nat
     \<Rightarrow> 32 word list \<Rightarrow> 32 word list \<Rightarrow> js_error + (32 word list \<times> 32 word list)" where
  "stlVertexLoop buf offset i nx ny nz v vertices normals =
     (if v < 3 then
        (let vOffset = offset + 12 + v * 12;
             idx = i * 9 + v * 3
         in case getFloat32 buf vOffset of
              Inl e \<Rightarrow> Inl e
            | Inr x \<Rightarrow>
                (case getFloat32 buf (vOffset + 4) of
                   Inl e \<Rightarrow> Inl e
                 | Inr y \<Rightarrow>
                     (case getFloat32 buf (vOffset + 8) of
                        Inl e \<Rightarrow> Inl e
                      | Inr z \<Rightarrow>
                          stlVertexLoop buf offset i nx ny nz (v + 1)
                            (vertices[idx := x, idx + 1 := y, idx + 2 := z])
                            (normals[idx := nx, idx + 1 := ny, idx + 2 := nz]))))
      else Inr (vertices, normals))"
  by pat_completeness auto
termination
  by (relation "measure (\<lambda>(buf, offset, i, nx, ny, nz, v, vertices, normals). 3 - v)") auto

text \<open>The outer loop over the triangles.\<close>

function stlTriangleLoop ::
  "byte list \<Rightarrow> nat \<Rightarrow> nat \<Rightarrow> 32 word list \<Rightarrow> 32 word list
     \<Rightarrow> js_error + (32 word list \<times> 32 word list)" where
  "stlTriangleLoop buf triangleCount i vertices normals =
     (if i < triangleCount then
        (let offset = 84 + i * 50
         in case getFloat32 buf offset of
              Inl e \<Rightarrow> Inl e
            | Inr nx \<Rightarrow>
                (case getFloat32 buf (offset + 4) of
                   Inl e \<Rightarrow> Inl e
                 | Inr ny \<Rightarrow>
                     (case getFloat32 buf (offset + 8) of
                        Inl e \<Rightarrow> Inl e
                      | Inr nz \<Rightarrow>
                          (case stlVertexLoop buf offset i nx ny nz 0 vertices normals of
                             Inl e \<Rightarrow> Inl e
                           | Inr (vs, ns) \<Rightarrow>
                               stlTriangleLoop buf triangleCount (i + 1) vs ns))))
      else Inr (vertices, normals))"
  by pat_completeness auto
termination
  by (relation "measure (\<lambda>(buf, triangleCount, i, vertices, normals). triangleCount - i)") auto

definition solidMagic :: "byte list" where
  "solidMagic = [0x73, 0x6F, 0x6C, 0x69, 0x64]"

text \<open>
  \<open>parseSTL\<close>. The parser of the textual variant is the argument \<open>parseSTLAscii\<close>.
  Building the five-byte view throws on a buffer shorter than five bytes.
\<close>

definition parseSTL :: "(byte list \<Rightarrow> stl_geometry) \<Rightarrow> byte list \<Rightarrow> js_error + stl_geometry" where
  "parseSTL parseSTLAscii buffer =
     (if length buffer < 5 then Inl RangeError
      else if take 5 buffer = solidMagic then Inr (parseSTLAscii buffer)
      else
        case getUint32 buffer 80 of
          Inl e \<Rightarrow> Inl e
        | Inr tc \<Rightarrow>
            (let triangleCount = unat tc
             in case stlTriangleLoop buffer triangleCount 0
                       (replicate (triangleCount * 9) 0) (replicate (triangleCount * 9) 0) of
                  Inl e \<Rightarrow> Inl e
                | Inr (vs, ns) \<Rightarrow> Inr \<lparr>position = vs, normal = ns\<rparr>))"

text \<open>
  Vocabulary for the layout of the binary format: the word at a byte offset, and the
  words that component \<open>j\<close> of the vertex and of the normal array are read from
  (triangle \<open>j div 9\<close>; the record of a triangle starts at byte \<open>84 + 50 * (j div 9)\<close>,
  its normal at offset 0 and its nine vertex coordinates at offset 12).
\<close>

definition wordAt :: "byte list \<Rightarrow> nat \<Rightarrow> 32 word" where
  "wordAt buf off = le32 (buf ! off) (buf ! (off + 1)) (buf ! (off + 2)) (buf ! (off + 3))"

definition stlVertexWord :: "byte list \<Rightarrow> nat \<Rightarrow> 32 word" where
  "stlVertexWord buf j = wordAt buf (84 + 50 * (j div 9) + 12 + 4 * (j mod 9))"

definition stlNormalWord :: "byte list \<Rightarrow> nat \<Rightarrow> 32 word" where
  "stlNormalWord buf j = wordAt buf (84 + 50 * (j div 9) + 4 * (j mod 3))"

text \<open>Nine stores in a row, as one pass of the vertex loop makes them.\<close>

definition nineUpdates :: "'a list \<Rightarrow> nat \<Rightarrow> (nat \<Rightarrow> 'a) \<Rightarrow> 'a list" where
  "nineUpdates xs b f =
     xs[b := f 0, b + 1 := f 1, b + 2 := f 2, b + 3 := f 3, b + 4 := f 4, b + 5 := f 5,
        b + 6 := f 6, b + 7 := f 7, b + 8 := f 8]"

text \<open>The geometry that decoding \<open>K\<close> triangles of a binary buffer yields.\<close>

definition stlDecoded :: "byte list \<Rightarrow> nat \<Rightarrow> stl_geometry" where
  "stlDecoded buf K =
     \<lparr>position = map (stlVertexWord buf) [0..<9 * K],
      normal = map (stlNormalWord buf) [0..<9 * K]\<rparr>"

text \<open>
  Example data: a binary buffer that declares one triangle. Byte \<open>k\<close> of the triangle
  record holds the value \<open>k\<close>.
\<close>

definition exStl :: "byte list" where
  "exStl = replicate 80 0 @ [1, 0, 0, 0] @ map of_nat [0..<50]"

section \<open>GeometryParser: the text mesh format (\<open>parseOBJ\<close>)\<close>

text \<open>
  Strings are lists of 8-bit characters; of the characters that \<open>\s\<close> and \<open>trim\<close>
  treat as white space, the six ASCII ones are modelled.
\<close>

definition isSpace :: "char \<Rightarrow> bool" where
  "isSpace c \<longleftrightarrow> of_char c \<in> {9, 10, 11, 12, 13, 32 :: nat}"

definition trim :: "string \<Rightarrow> string" where
  "trim s = rev (dropWhile isSpace (rev (dropWhile isSpace s)))"

text \<open>\<open>s.split(sep)\<close> for a separator of one character.\<close>

fun splitChar :: "char \<Rightarrow> string \<Rightarrow> string \<Rightarrow> string list" where
  "splitChar sep cur [] = [rev cur]"
| "splitChar sep cur (c # cs) =
     (if c = sep then rev cur # splitChar sep [] cs else splitChar sep (c # cur) cs)"

text \<open>\<open>s.split(/\s+/)\<close>: a maximal run of white space is one separator.\<close>

function splitSpaces :: "string \<Rightarrow> string \<Rightarrow> string list" where
  "splitSpaces cur [] = [rev cur]"
| "splitSpaces cur (c # cs) =
     (if isSpace c then rev cur # splitSpaces [] (dropWhile isSpace cs)
      else splitSpaces (c # cur) cs)"
  by pat_completeness auto
termination
  by (relation "measure (\<lambda>(cur, s). length s)") (auto simp: less_Suc_eq_le length_dropWhile_le)

definition isDigit :: "char \<Rightarrow> bool" where
  "isDigit c \<longleftrightarrow> 48 \<le> (of_char c :: nat) \<and> (of_char c :: nat) \<le> 57"

definition digitsValue :: "string \<Rightarrow> int" where
  "digitsValue ds = foldl (\<lambda>acc c. 10 * acc + (int (of_char c) - 48)) 0 ds"

text \<open>
  \<open>parseInt(s, 10)\<close>: leading white space, an optional sign, then the longest run of
  digits; \<open>None\<close> is \<open>NaN\<close>.
\<close>

definition parseInt :: "string \<Rightarrow> int option" where
  "parseInt s =
     (let s1 = dropWhile isSpace s;
          neg = (s1 \<noteq> [] \<and> hd s1 = CHR ''-'');
          s2 = (if s1 \<noteq> [] \<and> (hd s1 = CHR ''-'' \<or> hd s1 = CHR ''+'') then tl s1 else s1);
          ds = takeWhile isDigit s2
      in if ds = [] then None
         else Some (if neg then - digitsValue ds else digitsValue ds))"

text \<open>
  The index a face reference resolves to, given the number of vertices read so far
  (line 88); a reference that does not start with a number stays \<open>NaN\<close>.
\<close>

definition faceIndex :: "nat \<Rightarrow> string \<Rightarrow> int option" where
  "faceIndex nverts ref =
     (case parseInt (hd (splitChar (CHR ''/'') [] ref)) of
        None \<Rightarrow> None
      | Some idx \<Rightarrow> Some (if 0 < idx then idx - 1 else int nverts + idx))"

text \<open>The fan loop of lines 90 to 92.\<close>

definition fanTriangles :: "'a list \<Rightarrow> 'a list" where
  "fanTriangles faceVerts =
     concat (map (\<lambda>i. [faceVerts ! 0, faceVerts ! i, faceVerts ! (i + 1)])
                 [1..<length faceVerts - 1])"

record 'f obj_state =
  tempVerts :: "'f list list"
  tempNormals :: "'f list list"
  indices :: "int option list"

text \<open>The body of the loop over the lines; \<open>parseFloat\<close> is an argument.\<close>

definition objLine :: "(string \<Rightarrow> 'f) \<Rightarrow> 'f obj_state \<Rightarrow> string \<Rightarrow> 'f obj_state" where
  "objLine parseFloat st line =
     (let parts = splitSpaces [] (trim line) in
      if hd parts = ''v'' \<and> 4 \<le> length parts
      then st\<lparr>tempVerts := tempVerts st @
                 [[parseFloat (parts ! 1), parseFloat (parts ! 2), parseFloat (parts ! 3)]]\<rparr>
      else if hd parts = ''vn'' \<and> 4 \<le> length parts
      then st\<lparr>tempNormals := tempNormals st @
                 [[parseFloat (parts ! 1), parseFloat (parts ! 2), parseFloat (parts ! 3)]]\<rparr>
      else if hd parts = ''f''
      then (let faceVerts = map (faceIndex (length (tempVerts st))) (tl parts)
            in st\<lparr>indices := indices st @ fanTriangles faceVerts\<rparr>)
      else st)"

text \<open>
  The normal attribute of the geometry: the normals of the file, or the ones the
  geometry library computes from the faces.
\<close>

datatype 'f normal_attribute = FileNormals "'f list" | ComputedVertexNormals

record 'f obj_geometry =
  g_position :: "'f list"
  g_index :: "int option list"
  g_normal :: "'f normal_attribute"

definition parseOBJ :: "(string \<Rightarrow> 'f) \<Rightarrow> string \<Rightarrow> 'f obj_geometry" where
  "parseOBJ parseFloat text =
     (let st = foldl (objLine parseFloat)
                 \<lparr>tempVerts = [], tempNormals = [], indices = []\<rparr>
                 (splitChar (CHR 0x0A) [] text);
          vertices = concat (tempVerts st);
          flatNormals = concat (tempNormals st)
      in \<lparr>g_position = vertices, g_index = indices st,
          g_normal = (if 0 < length (tempNormals st) \<and> length flatNormals = length vertices
                      then FileNormals flatNormals else ComputedVertexNormals)\<rparr>)"


section \<open>Properties of the pixel surfaces\<close>

lemma mapPixels_eqI:
  assumes "length xs = length (s_data s)"
    and "\<And>i. i < length (s_data s) \<Longrightarrow> f (i mod s_width s) (i div s_width s) (s_data s ! i) = xs ! i"
  shows "mapPixels f s = s\<lparr>s_data := xs\<rparr>"
proof -
  have "map (\<lambda>i. f (i mod s_width s) (i div s_width s) (s_data s ! i)) [0..<length (s_data s)] = xs"
    by (rule nth_equalityI) (use assms in simp_all)
  then show ?thesis by (simp add: mapPixels_def)
qed

lemma putImageData_full:
  assumes "s_width img = s_width s" "s_height img = s_height s"
    "length (s_data img) = s_width s * s_height s" "length (s_data s) = s_width s * s_height s"
  shows "putImageData img 0 0 s = s\<lparr>s_data := s_data img\<rparr>"
  unfolding putImageData_def
proof (rule mapPixels_eqI)
  show "length (s_data img) = length (s_data s)" using assms by simp
next
  fix i assume "i < length (s_data s)"
  then have i: "i < s_width s * s_height s" using assms by simp
  then have w: "0 < s_width s" by (cases "s_width s") auto
  have "i div s_width s < s_height s" using i w
    by (simp add: less_mult_imp_div_less mult.commute)
  moreover have "i mod s_width s < s_width s" using w by simp
  ultimately have "inRect 0 0 (s_width img) (s_height img) (i mod s_width s) (i div s_width s)"
    using assms by (simp add: inRect_def)
  moreover have "pixelAt img (i mod s_width s) (i div s_width s) = s_data img ! i"
    using assms by (simp add: pixelAt_def)
  ultimately show "(if inRect 0 0 (s_width img) (s_height img) (i mod s_width s) (i div s_width s)
          then pixelAt img (i mod s_width s - 0) (i div s_width s - 0) else s_data s ! i) = s_data img ! i"
    by simp
qed

lemma mapPixels_dims [simp]:
  "s_width (mapPixels f s) = s_width s" "s_height (mapPixels f s) = s_height s"
  "length (s_data (mapPixels f s)) = length (s_data s)"
  by (simp_all add: mapPixels_def)

lemma pixelAt_mapPixels:
  assumes "surfaceOk s" "x < s_width s" "y < s_height s"
  shows "pixelAt (mapPixels f s) x y = f x y (pixelAt s x y)"
proof -
  have "y * s_width s + x < s_width s * s_height s"
  proof -
    have "y * s_width s + x < y * s_width s + s_width s" using assms(2) by simp
    also have "\<dots> = (Suc y) * s_width s" by simp
    also have "\<dots> \<le> s_height s * s_width s" using assms(3) by (intro mult_le_mono1) simp
    finally show ?thesis by (simp add: mult.commute)
  qed
  then have "y * s_width s + x < length (s_data s)" using assms(1) by (simp add: surfaceOk_def)
  then show ?thesis using assms(2) by (simp add: pixelAt_def mapPixels_def)
qed

lemma surfaceOk_mapPixels: "surfaceOk s \<Longrightarrow> surfaceOk (mapPixels f s)"
  by (simp add: surfaceOk_def)

section \<open>Properties of the GIF player\<close>

lemma disposePrevious_eq:
  "disposePrevious index st =
     st\<lparr>frameCanvas :=
          (if 0 < index \<and> disposalType (frames st ! (index - 1)) = 2
           then clearRect (d_left (dims (frames st ! (index - 1)))) (d_top (dims (frames st ! (index - 1))))
               (d_width (dims (frames st ! (index - 1)))) (d_height (dims (frames st ! (index - 1))))
               (frameCanvas st)
           else frameCanvas st)\<rparr>"
  by (simp add: disposePrevious_def Let_def)

text \<open>On a well-formed player \<open>renderFrame\<close> does not throw, and its result is \<open>rendered\<close>.\<close>

lemma renderFrame_ok:
  assumes "index < length (frames st)" "list_all frameOk (frames st)" "patchDataOk st"
  shows "renderFrame over index st = Inr (rendered over index st)"
proof -
  let ?f = "frames st ! index"
  let ?w = "d_width (dims ?f)" and ?h = "d_height (dims ?f)"
  have fok: "frameOk ?f" using assms by (simp add: list_all_length)
  then have w: "?w \<noteq> 0" and h: "?h \<noteq> 0" and len: "length (patch ?f) = ?w * ?h"
    by (simp_all add: frameOk_def)
  have put: "putImageData \<lparr>s_width = ?w, s_height = ?h, s_data = patch ?f\<rparr> 0 0 pc
      = \<lparr>s_width = ?w, s_height = ?h, s_data = patch ?f\<rparr>"
    if "s_width pc = ?w" "s_height pc = ?h" "length (s_data pc) = ?w * ?h" for pc :: surface
    using putImageData_full[of "\<lparr>s_width = ?w, s_height = ?h, s_data = patch ?f\<rparr>" pc] that len
    by simp
  show ?thesis
  proof (cases "cachedPatchData st = None \<or> cachedPatchW st \<noteq> ?w \<or> cachedPatchH st \<noteq> ?h")
    case True
    then have e: "ensurePatchData (dims ?f) st =
        Inr (st\<lparr>patchCanvas := blankSurface ?w ?h, cachedPatchData := Some (blankSurface ?w ?h),
                cachedPatchW := ?w, cachedPatchH := ?h\<rparr>)"
      using w h by (simp add: ensurePatchData_def)
    have p: "putImageData \<lparr>s_width = ?w, s_height = ?h, s_data = patch ?f\<rparr> 0 0 (blankSurface ?w ?h)
      = \<lparr>s_width = ?w, s_height = ?h, s_data = patch ?f\<rparr>"
      by (rule put) (simp_all add: blankSurface_def)
    have b: "(blankSurface ?w ?h)\<lparr>s_data := patch ?f @ drop (length (patch ?f)) (s_data (blankSurface ?w ?h))\<rparr>
       = \<lparr>s_width = ?w, s_height = ?h, s_data = patch ?f\<rparr>"
      using len by (simp add: blankSurface_def)
    have l: "\<not> length (s_data (blankSurface ?w ?h)) < length (patch ?f)"
      using len by (simp add: blankSurface_def)
    show ?thesis
      using assms(1)
      by (simp add: renderFrame_def e Let_def b l p rendered_def composited_def disposePrevious_eq
            frameSurface_def split del: if_split cong: if_cong)
  next
    case False
    then obtain img where img: "cachedPatchData st = Some img"
      and cw: "cachedPatchW st = ?w" "cachedPatchH st = ?h"
      by auto
    have e: "ensurePatchData (dims ?f) st = Inr st"
      using img cw by (simp add: ensurePatchData_def)
    have inv: "s_width img = ?w" "s_height img = ?h" "length (s_data img) = ?w * ?h"
      "s_width (patchCanvas st) = ?w" "s_height (patchCanvas st) = ?h"
      "length (s_data (patchCanvas st)) = ?w * ?h"
      using assms(3) img cw by (simp_all add: patchDataOk_def)
    have b: "img\<lparr>s_data := patch ?f @ drop (length (patch ?f)) (s_data img)\<rparr>
       = \<lparr>s_width = ?w, s_height = ?h, s_data = patch ?f\<rparr>"
      using len inv by simp
    have p: "putImageData \<lparr>s_width = ?w, s_height = ?h, s_data = patch ?f\<rparr> 0 0 (patchCanvas st)
      = \<lparr>s_width = ?w, s_height = ?h, s_data = patch ?f\<rparr>"
      by (rule put) (simp_all add: inv)
    have l: "\<not> length (s_data img) < length (patch ?f)"
      using len inv by simp
    show ?thesis
      using assms(1) cw
      by (simp add: renderFrame_def e img Let_def b l p rendered_def composited_def disposePrevious_eq
            frameSurface_def split del: if_split cong: if_cong)
  qed
qed

lemma rendered_patchDataOk:
  assumes "index < length (frames st)" "list_all frameOk (frames st)"
  shows "patchDataOk (rendered over index st)"
  using assms by (simp add: patchDataOk_def rendered_def frameSurface_def list_all_length frameOk_def)

lemma composited_surfaceOk: "surfaceOk c \<Longrightarrow> surfaceOk (composited over fs index c)"
  by (simp add: composited_def drawImage_def clearRect_def surfaceOk_mapPixels)

lemma patchDataOk_currentIndex: "patchDataOk (st\<lparr>currentIndex := k\<rparr>) = patchDataOk st"
  by (simp add: patchDataOk_def split: option.split)

lemma patchDataOk_lastFrameTime: "patchDataOk (st\<lparr>lastFrameTime := t\<rparr>) = patchDataOk st"
  by (simp add: patchDataOk_def split: option.split)

lemma next_index_less: "1 < length (fs :: 'a list) \<Longrightarrow> (i + 1) mod length fs < length fs"
  by (cases fs) simp_all

text \<open>\<open>load\<close> establishes the invariant and \<open>advance\<close> keeps it.\<close>

lemma load_playerOk:
  assumes "fs \<noteq> []" "list_all frameOk fs"
  shows "\<exists>st'. load over fs w h now st = Inr st' \<and> playerOk st'"
proof -
  let ?st0 = "st\<lparr>frames := fs, gp_width := w, gp_height := h, currentIndex := 0,
              lastFrameTime := now, frameCanvas := clearRect 0 0 w h (blankSurface w h),
              cachedPatchData := None\<rparr>"
  have r: "renderFrame over 0 ?st0 = Inr (rendered over 0 ?st0)"
    by (rule renderFrame_ok) (use assms in \<open>simp_all add: patchDataOk_def\<close>)
  have "surfaceOk (clearRect 0 0 w h (blankSurface w h))"
    by (simp add: clearRect_def surfaceOk_def blankSurface_def)
  then have "playerOk (rendered over 0 ?st0)"
    using assms rendered_patchDataOk[of 0 ?st0 over]
    by (simp add: playerOk_def rendered_def composited_surfaceOk)
  then show ?thesis using assms r by (simp add: load_def)
qed

lemma advance_playerOk:
  assumes "playerOk st"
  shows "\<exists>st'. advance over now st = Inr st' \<and> playerOk st'"
proof (cases "length (frames st) \<le> 1 \<or>
    \<not> real_of_int (frameDelay (frames st ! currentIndex st)) \<le> now - lastFrameTime st")
  case True
  then show ?thesis using assms by (auto simp: advance_def Let_def playerOk_def)
next
  case False
  let ?k = "(currentIndex st + 1) mod length (frames st)"
  let ?st1 = "st\<lparr>currentIndex := ?k\<rparr>"
  have k: "?k < length (frames st)" using False by (intro next_index_less) simp
  have r: "renderFrame over ?k ?st1 = Inr (rendered over ?k ?st1)"
    by (rule renderFrame_ok) (use assms k in \<open>simp_all add: playerOk_def patchDataOk_currentIndex\<close>)
  have "patchDataOk (rendered over ?k ?st1)"
    by (rule rendered_patchDataOk) (use assms k in \<open>simp_all add: playerOk_def\<close>)
  then have "patchDataOk ((rendered over ?k ?st1)\<lparr>lastFrameTime := now\<rparr>)"
    by (simp add: patchDataOk_lastFrameTime)
  then have "playerOk ((rendered over ?k ?st1)\<lparr>lastFrameTime := now\<rparr>)"
    using assms k
    by (simp add: playerOk_def rendered_def composited_surfaceOk)
  then show ?thesis using False assms r by (simp add: advance_def Let_def playerOk_def)
qed

lemma advance_eq:
  assumes "playerOk st"
  shows "advance over now st =
           (if length (frames st) \<le> 1 then Inr st
            else if now - lastFrameTime st < real_of_int (frameDelay (frames st ! currentIndex st))
            then Inr st
            else Inr ((rendered over ((currentIndex st + 1) mod length (frames st))
                         (st\<lparr>currentIndex := (currentIndex st + 1) mod length (frames st)\<rparr>))
                      \<lparr>lastFrameTime := now\<rparr>))"
proof -
  let ?k = "(currentIndex st + 1) mod length (frames st)"
  let ?st1 = "st\<lparr>currentIndex := ?k\<rparr>"
  have r: "renderFrame over ?k ?st1 = Inr (rendered over ?k ?st1)" if "1 < length (frames st)"
    by (rule renderFrame_ok)
       (use assms that next_index_less[OF that] in \<open>simp_all add: playerOk_def patchDataOk_currentIndex\<close>)
  have c: "currentIndex st < length (frames st)" using assms by (simp add: playerOk_def)
  show ?thesis
    using c r by (auto simp: advance_def Let_def not_le)
qed

lemma pixelAt_composited:
  assumes "surfaceOk c" "x < s_width c" "y < s_height c"
  shows "pixelAt (composited over fs index c) x y =
     (let base = (if 0 < index \<and> disposalType (fs ! (index - 1)) = 2 \<and>
                     inRect (d_left (dims (fs ! (index - 1)))) (d_top (dims (fs ! (index - 1))))
                            (d_width (dims (fs ! (index - 1)))) (d_height (dims (fs ! (index - 1)))) x y
                  then transparent else pixelAt c x y)
      in if inRect (d_left (dims (fs ! index))) (d_top (dims (fs ! index)))
                   (d_width (dims (fs ! index))) (d_height (dims (fs ! index))) x y
         then over (pixelAt (frameSurface (fs ! index)) (x - d_left (dims (fs ! index)))
                            (y - d_top (dims (fs ! index)))) base
         else base)"
  using assms
  by (simp add: composited_def drawImage_def clearRect_def pixelAt_mapPixels surfaceOk_mapPixels
        frameSurface_def Let_def)




text \<open>
  Claim C4, for a target frame that has a predecessor in the array. When frame
  \<open>index\<close>, with \<open>0 < index\<close>, is composited: if the frame before it has disposal type 2
  (restore to background), its rectangle is cleared on the composite surface and then
  the new patch is drawn; for any other disposal type the surface is left as it is and
  the new patch is drawn on top. Pixel by pixel: outside the new patch the pixel is the
  cleared or the prior one, inside it is the patch pixel composited over that.
\<close>

theorem gif_disposal_between_frames:
  assumes "playerOk st" and "0 < index" and "index < length (frames st)"
  shows "renderFrame over index st = Inr (rendered over index st) \<and>
     frameCanvas (rendered over index st) =
       drawImage over (frameSurface (frames st ! index))
         (d_left (dims (frames st ! index))) (d_top (dims (frames st ! index)))
         (if disposalType (frames st ! (index - 1)) = 2
          then clearRect (d_left (dims (frames st ! (index - 1)))) (d_top (dims (frames st ! (index - 1))))
                 (d_width (dims (frames st ! (index - 1)))) (d_height (dims (frames st ! (index - 1))))
                 (frameCanvas st)
          else frameCanvas st) \<and>
     (\<forall>x y. x < s_width (frameCanvas st) \<longrightarrow> y < s_height (frameCanvas st) \<longrightarrow>
        pixelAt (frameCanvas (rendered over index st)) x y =
          (let base = (if disposalType (frames st ! (index - 1)) = 2 \<and>
                          inRect (d_left (dims (frames st ! (index - 1)))) (d_top (dims (frames st ! (index - 1))))
                            (d_width (dims (frames st ! (index - 1)))) (d_height (dims (frames st ! (index - 1)))) x y
                       then transparent else pixelAt (frameCanvas st) x y)
           in if inRect (d_left (dims (frames st ! index))) (d_top (dims (frames st ! index)))
                   (d_width (dims (frames st ! index))) (d_height (dims (frames st ! index))) x y
              then over (pixelAt (frameSurface (frames st ! index)) (x - d_left (dims (frames st ! index)))
                            (y - d_top (dims (frames st ! index)))) base
              else base))"
proof -
  have r: "renderFrame over index st = Inr (rendered over index st)"
    by (rule renderFrame_ok) (use assms in \<open>simp_all add: playerOk_def\<close>)
  have c: "frameCanvas (rendered over index st) = composited over (frames st) index (frameCanvas st)"
    by (simp add: rendered_def)
  have ok: "surfaceOk (frameCanvas st)" using assms(1) by (simp add: playerOk_def)
  have c2: "composited over (frames st) index (frameCanvas st) =
       drawImage over (frameSurface (frames st ! index))
         (d_left (dims (frames st ! index))) (d_top (dims (frames st ! index)))
         (if disposalType (frames st ! (index - 1)) = 2
          then clearRect (d_left (dims (frames st ! (index - 1)))) (d_top (dims (frames st ! (index - 1))))
                 (d_width (dims (frames st ! (index - 1)))) (d_height (dims (frames st ! (index - 1))))
                 (frameCanvas st)
          else frameCanvas st)"
    using assms(2) by (simp add: composited_def)
  have px: "pixelAt (composited over (frames st) index (frameCanvas st)) x y =
          (let base = (if disposalType (frames st ! (index - 1)) = 2 \<and>
                          inRect (d_left (dims (frames st ! (index - 1)))) (d_top (dims (frames st ! (index - 1))))
                            (d_width (dims (frames st ! (index - 1)))) (d_height (dims (frames st ! (index - 1)))) x y
                       then transparent else pixelAt (frameCanvas st) x y)
           in if inRect (d_left (dims (frames st ! index))) (d_top (dims (frames st ! index)))
                   (d_width (dims (frames st ! index))) (d_height (dims (frames st ! index))) x y
              then over (pixelAt (frameSurface (frames st ! index)) (x - d_left (dims (frames st ! index)))
                            (y - d_top (dims (frames st ! index)))) base
              else base)"
    if "x < s_width (frameCanvas st)" "y < s_height (frameCanvas st)" for x y
    using pixelAt_composited[OF ok that, of over "frames st" index] assms(2) by simp
  show ?thesis
  proof (intro conjI allI impI)
    show "renderFrame over index st = Inr (rendered over index st)" by (rule r)
  next
    show "frameCanvas (rendered over index st) =
       drawImage over (frameSurface (frames st ! index))
         (d_left (dims (frames st ! index))) (d_top (dims (frames st ! index)))
         (if disposalType (frames st ! (index - 1)) = 2
          then clearRect (d_left (dims (frames st ! (index - 1)))) (d_top (dims (frames st ! (index - 1))))
                 (d_width (dims (frames st ! (index - 1)))) (d_height (dims (frames st ! (index - 1))))
                 (frameCanvas st)
          else frameCanvas st)"
      unfolding c by (rule c2)
  next
    fix x y assume "x < s_width (frameCanvas st)" "y < s_height (frameCanvas st)"
    then show "pixelAt (frameCanvas (rendered over index st)) x y =
          (let base = (if disposalType (frames st ! (index - 1)) = 2 \<and>
                          inRect (d_left (dims (frames st ! (index - 1)))) (d_top (dims (frames st ! (index - 1))))
                            (d_width (dims (frames st ! (index - 1)))) (d_height (dims (frames st ! (index - 1)))) x y
                       then transparent else pixelAt (frameCanvas st) x y)
           in if inRect (d_left (dims (frames st ! index))) (d_top (dims (frames st ! index)))
                   (d_width (dims (frames st ! index))) (d_height (dims (frames st ! index))) x y
              then over (pixelAt (frameSurface (frames st ! index)) (x - d_left (dims (frames st ! index)))
                            (y - d_top (dims (frames st ! index)))) base
              else base)"
      unfolding c by (rule px)
  qed
qed

text \<open>
  The theorem at two frames side by side on a canvas that shows the first one. With
  disposal type 2 on the first frame its pixel is cleared before the second frame is
  painted; with disposal type 1 it stays.
\<close>

theorem gif_disposal_between_frames_witness:
  "playerOk (exPlayer [exFrame 0 exRed 5 2, exFrame 1 exBlue 5 1] 0 [exRed, transparent]) \<and>
   renderFrame exOver 1 (exPlayer [exFrame 0 exRed 5 2, exFrame 1 exBlue 5 1] 0 [exRed, transparent])
     = Inr ((exPlayer [exFrame 0 exRed 5 2, exFrame 1 exBlue 5 1] 1 [transparent, exBlue])\<lparr>currentIndex := 0\<rparr>) \<and>
   playerOk (exPlayer [exFrame 0 exRed 5 1, exFrame 1 exBlue 5 1] 0 [exRed, transparent]) \<and>
   renderFrame exOver 1 (exPlayer [exFrame 0 exRed 5 1, exFrame 1 exBlue 5 1] 0 [exRed, transparent])
     = Inr ((exPlayer [exFrame 0 exRed 5 1, exFrame 1 exBlue 5 1] 1 [exRed, exBlue])\<lparr>currentIndex := 0\<rparr>)"
  using gif_disposal_between_frames [of "exPlayer [exFrame 0 exRed 5 2, exFrame 1 exBlue 5 1] 0 [exRed, transparent]" 1 exOver]
    gif_disposal_between_frames [of "exPlayer [exFrame 0 exRed 5 1, exFrame 1 exBlue 5 1] 0 [exRed, transparent]" 1 exOver]
  by (simp add: exPlayer_def exFrame_def playerOk_def frameOk_def patchDataOk_def surfaceOk_def
        frameSurface_def drawImage_def mapPixels_def rendered_def composited_def
        inRect_def pixelAt_def exOver_def exRed_def exBlue_def transparent_def clearRect_def upt_rec)

text \<open>
  The claim as stated fails when the player wraps around. The last frame has disposal
  type 2 and covers the pixel at (1, 0), the first frame does not cover it; after the
  wrap to the first frame the pixel still shows the last frame.
\<close>

theorem gif_wrap_disposal_counterexample:
  "currentIndex (exPlayer [exFrame 0 exRed 5 1, exFrame 1 exBlue 5 2] 1 [exRed, exBlue]) = 1 \<and>
   disposalType ([exFrame 0 exRed 5 1, exFrame 1 exBlue 5 2] ! 1) = 2 \<and>
   inRect (d_left (dims (exFrame 1 exBlue 5 2))) (d_top (dims (exFrame 1 exBlue 5 2)))
          (d_width (dims (exFrame 1 exBlue 5 2))) (d_height (dims (exFrame 1 exBlue 5 2))) 1 0 \<and>
   \<not> inRect (d_left (dims (exFrame 0 exRed 5 1))) (d_top (dims (exFrame 0 exRed 5 1)))
          (d_width (dims (exFrame 0 exRed 5 1))) (d_height (dims (exFrame 0 exRed 5 1))) 1 0 \<and>
   advance exOver 50 (exPlayer [exFrame 0 exRed 5 1, exFrame 1 exBlue 5 2] 1 [exRed, exBlue])
     = Inr ((exPlayer [exFrame 0 exRed 5 1, exFrame 1 exBlue 5 2] 0 [exRed, exBlue])\<lparr>lastFrameTime := 50\<rparr>) \<and>
   pixelAt (frameCanvas (exPlayer [exFrame 0 exRed 5 1, exFrame 1 exBlue 5 2] 0 [exRed, exBlue])) 1 0 = exBlue \<and>
   exBlue \<noteq> transparent"
  by (simp add: advance_def renderFrame_def ensurePatchData_def disposePrevious_def putImageData_def
        Let_def exPlayer_def exFrame_def frameSurface_def drawImage_def mapPixels_def frameDelay_def
        inRect_def pixelAt_def exOver_def exRed_def exBlue_def transparent_def clearRect_def upt_rec)

text \<open>
  Claim C10. When \<open>advance\<close> wraps from the last frame to frame 0, nothing is cleared,
  whatever the disposal type of the last frame: the composite surface after the step is
  the one before it with the patch of frame 0 drawn on it, and every pixel outside that
  patch is unchanged.
\<close>

theorem gif_wrap_no_disposal:
  assumes "playerOk st" and "1 < length (frames st)"
    and "currentIndex st = length (frames st) - 1"
    and "real_of_int (frameDelay (frames st ! currentIndex st)) \<le> now - lastFrameTime st"
  shows "advance over now st =
           Inr ((rendered over 0 (st\<lparr>currentIndex := 0\<rparr>))\<lparr>lastFrameTime := now\<rparr>) \<and>
     frameCanvas (rendered over 0 (st\<lparr>currentIndex := 0\<rparr>)) =
       drawImage over (frameSurface (frames st ! 0))
         (d_left (dims (frames st ! 0))) (d_top (dims (frames st ! 0))) (frameCanvas st) \<and>
     (\<forall>x y. x < s_width (frameCanvas st) \<longrightarrow> y < s_height (frameCanvas st) \<longrightarrow>
        pixelAt (frameCanvas (rendered over 0 (st\<lparr>currentIndex := 0\<rparr>))) x y =
          (if inRect (d_left (dims (frames st ! 0))) (d_top (dims (frames st ! 0)))
                   (d_width (dims (frames st ! 0))) (d_height (dims (frames st ! 0))) x y
           then over (pixelAt (frameSurface (frames st ! 0)) (x - d_left (dims (frames st ! 0)))
                            (y - d_top (dims (frames st ! 0)))) (pixelAt (frameCanvas st) x y)
           else pixelAt (frameCanvas st) x y))"
proof -
  have "currentIndex st + 1 = length (frames st)"
    using assms(2,3) by simp
  then have k: "(currentIndex st + 1) mod length (frames st) = 0"
    by simp
  have ok: "surfaceOk (frameCanvas st)" using assms(1) by (simp add: playerOk_def)
  have a: "advance over now st = Inr ((rendered over 0 (st\<lparr>currentIndex := 0\<rparr>))\<lparr>lastFrameTime := now\<rparr>)"
    using advance_eq[OF assms(1), of over now, unfolded k] assms(2,4) by simp
  have c: "frameCanvas (rendered over 0 (st\<lparr>currentIndex := 0\<rparr>)) = composited over (frames st) 0 (frameCanvas st)"
    by (simp add: rendered_def)
  show ?thesis
  proof (intro conjI allI impI)
    show "advance over now st = Inr ((rendered over 0 (st\<lparr>currentIndex := 0\<rparr>))\<lparr>lastFrameTime := now\<rparr>)"
      by (rule a)
  next
    show "frameCanvas (rendered over 0 (st\<lparr>currentIndex := 0\<rparr>)) =
       drawImage over (frameSurface (frames st ! 0))
         (d_left (dims (frames st ! 0))) (d_top (dims (frames st ! 0))) (frameCanvas st)"
      unfolding c by (simp add: composited_def)
  next
    fix x y assume "x < s_width (frameCanvas st)" "y < s_height (frameCanvas st)"
    then show "pixelAt (frameCanvas (rendered over 0 (st\<lparr>currentIndex := 0\<rparr>))) x y =
          (if inRect (d_left (dims (frames st ! 0))) (d_top (dims (frames st ! 0)))
                   (d_width (dims (frames st ! 0))) (d_height (dims (frames st ! 0))) x y
           then over (pixelAt (frameSurface (frames st ! 0)) (x - d_left (dims (frames st ! 0)))
                            (y - d_top (dims (frames st ! 0)))) (pixelAt (frameCanvas st) x y)
           else pixelAt (frameCanvas st) x y)"
      unfolding c using pixelAt_composited[OF ok, of x y over "frames st" 0] by simp
  qed
qed

text \<open>
  The theorem at a player on its last frame, which has disposal type 2: after the wrap
  the pixel of the last frame is still there.
\<close>

theorem gif_wrap_no_disposal_witness:
  "playerOk (exPlayer [exFrame 0 exRed 5 1, exFrame 1 exBlue 7 2] 1 [transparent, exBlue]) \<and>
   1 < length (frames (exPlayer [exFrame 0 exRed 5 1, exFrame 1 exBlue 7 2] 1 [transparent, exBlue])) \<and>
   currentIndex (exPlayer [exFrame 0 exRed 5 1, exFrame 1 exBlue 7 2] 1 [transparent, exBlue]) =
     length (frames (exPlayer [exFrame 0 exRed 5 1, exFrame 1 exBlue 7 2] 1 [transparent, exBlue])) - 1 \<and>
   real_of_int (frameDelay (exFrame 1 exBlue 7 2)) \<le>
     70 - lastFrameTime (exPlayer [exFrame 0 exRed 5 1, exFrame 1 exBlue 7 2] 1 [transparent, exBlue]) \<and>
   disposalType (frames (exPlayer [exFrame 0 exRed 5 1, exFrame 1 exBlue 7 2] 1 [transparent, exBlue]) ! 1) = 2 \<and>
   advance exOver 70 (exPlayer [exFrame 0 exRed 5 1, exFrame 1 exBlue 7 2] 1 [transparent, exBlue])
     = Inr ((exPlayer [exFrame 0 exRed 5 1, exFrame 1 exBlue 7 2] 0 [exRed, exBlue])\<lparr>lastFrameTime := 70\<rparr>)"
  using gif_wrap_no_disposal [of "exPlayer [exFrame 0 exRed 5 1, exFrame 1 exBlue 7 2] 1 [transparent, exBlue]" 70 exOver]
  by (simp add: exPlayer_def exFrame_def playerOk_def frameOk_def patchDataOk_def surfaceOk_def
        frameSurface_def drawImage_def mapPixels_def rendered_def composited_def frameDelay_def
        inRect_def pixelAt_def exOver_def exRed_def exBlue_def transparent_def clearRect_def upt_rec)

section \<open>Properties of the brightness sampler\<close>


lemma fold_update_length:
  "length (fold (\<lambda>col g'. g'[idx col := f col]) cs g) = length g"
  by (induction cs arbitrary: g) simp_all


lemma fillRow_length: "length (fillRow cell ncols row g) = length g"
  by (simp add: fillRow_def fold_update_length)


lemma fold_fillRow_length: "length (fold (fillRow cell ncols) rs g) = length g"
  by (induction rs arbitrary: g) (simp_all add: fillRow_length)

lemma fillGrid_length: "length (fillGrid cell ncols nrows g) = length g"
  by (simp add: fillGrid_def fold_fillRow_length)



lemma getGridBuffer_Inr:
  assumes "getGridBuffer n c = Inr (g, c')"
  shows "cachedGrid c' = Some g \<and> cachedGridSize c' = n \<and>
         (g = replicate (nat n) 0 \<and> 0 \<le> n \<or> cachedGrid c = Some g \<and> cachedGridSize c = n)"
  using assms
  by (auto simp: getGridBuffer_def split: if_splits option.splits)

lemma sampleBrightness_cases:
  "sampleBrightness m ct br bg mx my =
     (if outOfBounds m mx my \<or> pixelAlpha m mx my < 10 then bg
      else adjusted ct br
             (if pixelAlpha m mx my < 255
              then pixelLuminance m mx my * (real (pixelAlpha m mx my) / 255)
                   + bg * (1 - real (pixelAlpha m mx my) / 255)
              else pixelLuminance m mx my))"
  by (simp add: sampleBrightness_def outOfBounds_def pixelAlpha_def pixelByte_def pixelLuminance_def
        adjusted_def clamp01_def Let_def)

lemma compute_Inr:
  assumes "computeBrightnessGrid m W H spacing ct br mt bgArg cache = Inr (res, cache')"
  shows "(mediaW m = 0 \<or> mediaH m = 0) \<and> grid res = [] \<and> cols res = 0 \<and> rows res = 0 \<and> cache' = cache
     \<or> (\<exists>g. (g = replicate (nat (cols res * rows res)) 0 \<and> 0 \<le> cols res * rows res
               \<or> cachedGrid cache = Some g \<and> cachedGridSize cache = cols res * rows res) \<and>
            grid res = fillGrid (cellBrightness m spacing ct br (bgOrDefault bgArg)
                                   (imgOffsetX res) (imgOffsetY res)
                                   (real (mediaW m) / imgDrawWidth res) (real (mediaH m) / imgDrawHeight res))
                         (cols res) (rows res) g \<and>
            cachedGrid cache' = Some (grid res) \<and> cachedGridSize cache' = cols res * rows res)"
proof (cases "mediaW m = 0 \<or> mediaH m = 0")
  case True
  then show ?thesis using assms by (auto simp: computeBrightnessGrid_def)
next
  case False
  then show ?thesis
    using assms
    apply (simp add: computeBrightnessGrid_def Let_def split: sum.splits prod.splits)
    apply (elim conjE)
    apply (drule getGridBuffer_Inr)
    apply auto
    done
qed

lemma fold_update_all:
  assumes "list_all P g" "\<And>x. P (f x)"
  shows "list_all P (fold (\<lambda>x g'. g'[idx x := f x]) xs g)"
  using assms(1)
proof (induction xs arbitrary: g)
  case Nil
  then show ?case by simp
next
  case (Cons x xs)
  have "set (g[idx x := f x]) \<subseteq> insert (f x) (set g)" by (rule set_update_subset_insert)
  then have "list_all P (g[idx x := f x])"
    using Cons.prems assms(2) by (auto simp: list_all_iff)
  then show ?case using Cons.IH by simp
qed

lemma fillGrid_all:
  assumes "list_all P g" "\<And>row col. P (cell row col)"
  shows "list_all P (fillGrid cell ncols nrows g)"
proof -
  have row: "list_all P (fillRow cell ncols r g')" if "list_all P g'" for r g'
    unfolding fillRow_def by (rule fold_update_all) (use that assms(2) in auto)
  have "list_all P (fold (fillRow cell ncols) rs g)" for rs
    using assms(1) by (induction rs arbitrary: g) (simp_all add: row)
  then show ?thesis by (simp add: fillGrid_def)
qed

lemma adjusted_inUnit: "inUnit (adjusted ct br v)"
  by (simp add: adjusted_def clamp01_def inUnit_def)

lemma sampleBrightness_inUnit: "inUnit bg \<Longrightarrow> inUnit (sampleBrightness m ct br bg mx my)"
  by (simp add: sampleBrightness_cases adjusted_inUnit)




text \<open>
  Claim C5. Every value of the grid that \<open>computeBrightnessGrid\<close> returns lies in
  \<open>[0, 1]\<close>, for any contrast and brightness, when \<open>bgBrightness\<close> lies in its
  range \<open>[0, 1]\<close>; the reused buffer keeps holding such values from one call to the next.
\<close>

theorem brightness_grid_in_unit_interval:
  assumes "gridCacheInUnit cache" and "inUnit (bgOrDefault bgArg)"
    and "computeBrightnessGrid m W H spacing ct br mt bgArg cache = Inr (res, cache')"
  shows "(\<forall>v \<in> set (grid res). 0 \<le> v \<and> v \<le> 1) \<and> gridCacheInUnit cache'"
proof -
  consider (empty) "grid res = []" "cache' = cache"
    | (filled) g where
        "g = replicate (nat (cols res * rows res)) 0 \<and> 0 \<le> cols res * rows res
               \<or> cachedGrid cache = Some g \<and> cachedGridSize cache = cols res * rows res"
        "grid res = fillGrid (cellBrightness m spacing ct br (bgOrDefault bgArg)
                                   (imgOffsetX res) (imgOffsetY res)
                                   (real (mediaW m) / imgDrawWidth res) (real (mediaH m) / imgDrawHeight res))
                         (cols res) (rows res) g"
        "cachedGrid cache' = Some (grid res)"
    using compute_Inr[OF assms(3)] by blast
  then have "list_all inUnit (grid res) \<and> gridCacheInUnit cache'"
  proof cases
    case empty
    then show ?thesis using assms(1) by simp
  next
    case filled
    have "list_all inUnit g"
      using filled(1) assms(1) by (auto simp: gridCacheInUnit_def inUnit_def list_all_iff)
    then have "list_all inUnit (grid res)"
      unfolding filled(2)
      by (rule fillGrid_all) (simp add: cellBrightness_def sampleBrightness_inUnit assms(2))
    then show ?thesis using filled(3) by (simp add: gridCacheInUnit_def)
  qed
  then show ?thesis by (simp add: list_all_iff inUnit_def)
qed

text \<open>
  The theorem at contrast 3 and brightness 100 on a viewport of two cells: one cell is
  clamped to 1, the other lies outside the medium and receives the background value.
\<close>

theorem brightness_grid_in_unit_interval_witness:
  "gridCacheInUnit emptyGridCache \<and> inUnit (bgOrDefault (Some (1 / 2))) \<and>
   computeBrightnessGrid (exMedia 200) 10 20 10 3 100 None (Some (1 / 2)) emptyGridCache =
     Inr (\<lparr>grid = [1, 1 / 2], cols = 1, rows = 2, imgOffsetX = 0, imgOffsetY = 5,
            imgDrawWidth = 10, imgDrawHeight = 10\<rparr>,
          \<lparr>cachedGrid = Some [1, 1 / 2], cachedGridSize = 2\<rparr>) \<and>
   list_all inUnit [1, 1 / 2]"
  using brightness_grid_in_unit_interval [of emptyGridCache "Some (1 / 2)" "exMedia 200" 10 20 10 3 100 None
      "\<lparr>grid = [1, 1 / 2], cols = 1, rows = 2, imgOffsetX = 0, imgOffsetY = 5,
            imgDrawWidth = 10, imgDrawHeight = 10\<rparr>"
      "\<lparr>cachedGrid = Some [1, 1 / 2], cachedGridSize = 2\<rparr>"]
  by (simp add: computeBrightnessGrid_def exMedia_def emptyGridCache_def getGridBuffer_def Let_def
     bgOrDefault_def identityTransform_def fillGrid_def fillRow_def cellBrightness_def sampleBrightness_def
     cellMx_def cellMy_def toInt32_def gridCacheInUnit_def inUnit_def upto.simps
     numeral_2_eq_2)

text \<open>
  Claim C9. Calling \<open>computeBrightnessGrid\<close> with the media transform of scale 1 and
  offsets 0 returns what calling it without a media transform returns.
\<close>

theorem identity_media_transform:
  "computeBrightnessGrid m W H spacing ct br
     (Some \<lparr>mt_scale = 1, mt_offsetX = 0, mt_offsetY = 0\<rparr>) bgArg cache =
   computeBrightnessGrid m W H spacing ct br None bgArg cache"
  by (simp add: computeBrightnessGrid_def identityTransform_def)

section \<open>Properties of the shape renderer\<close>

lemma forCells_cong:
  assumes "\<And>row col. 0 \<le> row \<Longrightarrow> row < nrows \<Longrightarrow> 0 \<le> col \<Longrightarrow> col < ncols \<Longrightarrow> f row col = h row col"
  shows "forCells f ncols nrows = forCells h ncols nrows"
  unfolding forCells_def
  by (intro arg_cong[where f=concat] map_cong refl) (use assms in auto)











lemma gridAt_map:
  assumes "0 \<le> row" "row < nrows" "0 \<le> col" "col < ncols" "nrows * ncols \<le> int (length g)"
  shows "gridAt (map f g) ncols row col = f (gridAt g ncols row col)"
proof -
  have "row * ncols + col < (row + 1) * ncols" using assms by (simp add: algebra_simps)
  also have "\<dots> \<le> nrows * ncols" using assms by (intro mult_right_mono) simp_all
  finally have "row * ncols + col < int (length g)" using assms(5) by simp
  moreover have "0 \<le> row * ncols + col" using assms by simp
  ultimately have "nat (row * ncols + col) < length g" by linarith
  then show ?thesis by (simp add: gridAt_def)
qed

lemma cellRadius_invert:
  "cellRadius maxRadius minScale maxScale True v = cellRadius maxRadius minScale maxScale False (1 - v)"
  by (simp add: cellRadius_def)

lemma svgRadius_invert:
  "svgRadius maxRadius minScale maxScale True v = svgRadius maxRadius minScale maxScale False (1 - v)"
  by (simp add: svgRadius_def)

lemma svgShape_mapping: "svgShape (st\<lparr>mapping := m'\<rparr>) cx cy r = svgShape st cx cy r"
  by (cases "shape st") (simp_all add: svgShape_def split: option.split)

text \<open>
  Claim C8. For a grid that holds a value for every cell, drawing with \<open>invert\<close> set
  produces exactly what drawing without \<open>invert\<close> produces on the grid in which every
  value \<open>b\<close> is replaced by \<open>1 - b\<close>; the size range and everything else of the state is
  the same on both sides. This holds for the raster pass, whatever the shape, and for
  the vector export.
\<close>

theorem invert_equals_complemented_grid:
  assumes "nrows * ncols \<le> int (length g)"
  shows "renderShapes (st\<lparr>mapping := (mapping st)\<lparr>invert := True\<rparr>\<rparr>) g ncols nrows =
         renderShapes (st\<lparr>mapping := (mapping st)\<lparr>invert := False\<rparr>\<rparr>) (map (\<lambda>b. 1 - b) g) ncols nrows \<and>
         svgDocument (st\<lparr>mapping := (mapping st)\<lparr>invert := True\<rparr>\<rparr>) w h g ncols nrows =
         svgDocument (st\<lparr>mapping := (mapping st)\<lparr>invert := False\<rparr>\<rparr>) w h (map (\<lambda>b. 1 - b) g) ncols nrows"
proof -
  let ?g' = "map (\<lambda>b. 1 - b) g"
  let ?T = "st\<lparr>mapping := (mapping st)\<lparr>invert := True\<rparr>\<rparr>"
  let ?F = "st\<lparr>mapping := (mapping st)\<lparr>invert := False\<rparr>\<rparr>"
  have at: "gridAt ?g' ncols row col = 1 - gridAt g ncols row col"
    if "0 \<le> row" "row < nrows" "0 \<le> col" "col < ncols" for row col
    using gridAt_map[OF that assms] .
  have circ: "forCells (circleCell g ncols sp mr a b True) ncols nrows
            = forCells (circleCell ?g' ncols sp mr a b False) ncols nrows" for sp mr a b
    by (rule forCells_cong) (simp add: circleCell_def at cellRadius_invert Let_def)
  have tri: "forCells (triangleCell g ncols sp mr a b True) ncols nrows
            = forCells (triangleCell ?g' ncols sp mr a b False) ncols nrows" for sp mr a b
    by (rule forCells_cong) (simp add: triangleCell_def at cellRadius_invert Let_def)
  have shp: "forCells (shapeCell ?T g ncols sp mr a b) ncols nrows
            = forCells (shapeCell ?F ?g' ncols sp mr a b) ncols nrows" for sp mr a b
    by (rule forCells_cong) (simp add: shapeCell_def at cellRadius_invert Let_def)
  have svg: "forCells (svgCell ?T g ncols sp mr a b) ncols nrows
            = forCells (svgCell ?F ?g' ncols sp mr a b) ncols nrows" for sp mr a b
    by (rule forCells_cong) (simp add: svgCell_def svgShape_mapping at svgRadius_invert Let_def)
  show ?thesis
    by (simp add: renderShapes_def batchDrawCircles_def batchDrawTriangles_def svgDocument_def
          circ tri shp svg Let_def)
qed

text \<open>
  The theorem at a grid of two cells drawn as circles: inverted, the cell of brightness
  1 / 4 gets radius 3.6 and the cell of brightness 1 is skipped.
\<close>

theorem invert_equals_complemented_grid_witness:
  "1 * 2 \<le> int (length [1 / 4, 1 :: real]) \<and>
   renderShapes (exState Circle True) [1 / 4, 1] 2 1 =
     renderShapes (exState Circle False) [3 / 4, 0] 2 1 \<and>
   renderShapes (exState Circle True) [1 / 4, 1] 2 1 =
     [SetFillStyle ''#ffffff'', FillBatch [MoveTo (43 / 5) 5, Arc 5 5 (18 / 5) 0 TWO_PI]]"
  using invert_equals_complemented_grid [of 1 2 "[1 / 4, 1]" "exState Circle True" 10 10]
  by (simp add: exState_def renderShapes_def batchDrawCircles_def forCells_def circleCell_def
        cellRadius_def gridAt_def upto.simps Let_def)

section \<open>Properties of the mesh parsers\<close>





lemma getFloat32_wordAt: "off + 4 \<le> length buf \<Longrightarrow> getFloat32 buf off = Inr (wordAt buf off)"
  by (simp add: getFloat32_def wordAt_def)

lemma getUint32_wordAt: "off + 4 \<le> length buf \<Longrightarrow> getUint32 buf off = Inr (wordAt buf off)"
  by (simp add: getUint32_def wordAt_def)

lemma stlVertexLoop_unrolled:
  assumes "offset + 48 \<le> length buf"
  shows "stlVertexLoop buf offset i nx ny nz 0 vs ns =
     Inr (nineUpdates vs (i * 9) (\<lambda>c. wordAt buf (offset + 12 + 4 * c)),
          nineUpdates ns (i * 9) (\<lambda>c. [nx, ny, nz] ! (c mod 3)))"
proof -
  have g: "getFloat32 buf (offset + k) = Inr (wordAt buf (offset + k))" if "k \<le> 44" for k
    by (rule getFloat32_wordAt) (use assms that in simp)
  have s3: "stlVertexLoop buf offset i nx ny nz (Suc (Suc (Suc 0))) xs ys = Inr (xs, ys)" for xs ys
    by (subst stlVertexLoop.simps) simp
  have s2: "stlVertexLoop buf offset i nx ny nz (Suc (Suc 0)) xs ys =
      Inr (xs[i * 9 + 6 := wordAt buf (offset + 36), i * 9 + 7 := wordAt buf (offset + 40),
              i * 9 + 8 := wordAt buf (offset + 44)],
           ys[i * 9 + 6 := nx, i * 9 + 7 := ny, i * 9 + 8 := nz])" for xs ys
    by (subst stlVertexLoop.simps)
       (use g[of 36] g[of 40] g[of 44] in \<open>simp add: Let_def s3 ac_simps del: stlVertexLoop.simps\<close>)
  have s1: "stlVertexLoop buf offset i nx ny nz (Suc 0) xs ys =
      Inr (xs[i * 9 + 3 := wordAt buf (offset + 24), i * 9 + 4 := wordAt buf (offset + 28),
              i * 9 + 5 := wordAt buf (offset + 32),
              i * 9 + 6 := wordAt buf (offset + 36), i * 9 + 7 := wordAt buf (offset + 40),
              i * 9 + 8 := wordAt buf (offset + 44)],
           ys[i * 9 + 3 := nx, i * 9 + 4 := ny, i * 9 + 5 := nz,
              i * 9 + 6 := nx, i * 9 + 7 := ny, i * 9 + 8 := nz])" for xs ys
    by (subst stlVertexLoop.simps)
       (use g[of 24] g[of 28] g[of 32] in \<open>simp add: Let_def s2 ac_simps del: stlVertexLoop.simps\<close>)
  show ?thesis
    unfolding nineUpdates_def
    by (subst stlVertexLoop.simps)
       (use g[of 12] g[of 16] g[of 20] in \<open>simp add: Let_def s1 ac_simps del: stlVertexLoop.simps\<close>)
qed

lemma nineUpdates_length: "length (nineUpdates xs b f) = length xs"
  by (simp add: nineUpdates_def)

lemma nineUpdates_nth:
  assumes "b + 9 \<le> length xs"
  shows "nineUpdates xs b f ! j = (if b \<le> j \<and> j < b + 9 then f (j - b) else xs ! j)"
proof (cases "b \<le> j \<and> j < b + 9")
  case False
  then show ?thesis by (auto simp: nineUpdates_def nth_list_update)
next
  case True
  then have "j = b + (j - b)" "j - b < 9" by linarith+
  then obtain c where c: "j = b + c" "c < 9" by blast
  then consider "c = 0" | "c = 1" | "c = 2" | "c = 3" | "c = 4" | "c = 5" | "c = 6" | "c = 7" | "c = 8"
    by linarith
  then show ?thesis
    using assms c(1) by cases (simp_all add: nineUpdates_def nth_list_update)
qed

lemma stlTriangleLoop_step:
  assumes "i < K" "84 + 50 * K \<le> length buf"
  shows "stlTriangleLoop buf K i vs ns =
     stlTriangleLoop buf K (i + 1)
       (nineUpdates vs (i * 9) (\<lambda>c. wordAt buf (84 + i * 50 + 12 + 4 * c)))
       (nineUpdates ns (i * 9) (\<lambda>c. [wordAt buf (84 + i * 50), wordAt buf (84 + i * 50 + 4),
                                        wordAt buf (84 + i * 50 + 8)] ! (c mod 3)))"
proof -
  let ?off = "84 + i * 50"
  have "50 * (i + 1) \<le> 50 * K" using assms(1) by simp
  then have bound: "?off + 50 \<le> length buf" using assms(2) by simp
  have g: "getFloat32 buf (?off + k) = Inr (wordAt buf (?off + k))" if "k \<le> 8" for k
    by (rule getFloat32_wordAt) (use bound that in simp)
  have inner: "stlVertexLoop buf ?off i nx ny nz 0 vs ns =
     Inr (nineUpdates vs (i * 9) (\<lambda>c. wordAt buf (?off + 12 + 4 * c)),
          nineUpdates ns (i * 9) (\<lambda>c. [nx, ny, nz] ! (c mod 3)))" for nx ny nz
    by (rule stlVertexLoop_unrolled) (use bound in simp)
  show ?thesis
    by (subst stlTriangleLoop.simps)
       (use assms(1) g[of 0] g[of 4] g[of 8] in
         \<open>simp add: Let_def inner del: stlTriangleLoop.simps stlVertexLoop.simps\<close>)
qed


lemma stl_record_words:
  assumes "i * 9 \<le> j" "j < i * 9 + 9"
  shows "wordAt buf (84 + i * 50 + 12 + 4 * (j - i * 9)) = stlVertexWord buf j"
    and "[wordAt buf (84 + i * 50), wordAt buf (84 + i * 50 + 4), wordAt buf (84 + i * 50 + 8)]
           ! ((j - i * 9) mod 3) = stlNormalWord buf j"
proof -
  from assms have "j = i * 9 + (j - i * 9)" "j - i * 9 < 9" by linarith+
  then obtain c where c: "j = i * 9 + c" "c < 9" by blast
  have d: "j div 9 = i" "j mod 9 = c" using c by simp_all
  have m3: "j mod 3 = c mod 3" unfolding c(1) by presburger
  have jc: "j - i * 9 = c" using c(1) by simp
  show "wordAt buf (84 + i * 50 + 12 + 4 * (j - i * 9)) = stlVertexWord buf j"
    unfolding jc stlVertexWord_def d by (simp add: mult.commute)
  have "c mod 3 < 3" by simp
  then consider "c mod 3 = 0" | "c mod 3 = 1" | "c mod 3 = 2" by linarith
  then show "[wordAt buf (84 + i * 50), wordAt buf (84 + i * 50 + 4), wordAt buf (84 + i * 50 + 8)]
           ! ((j - i * 9) mod 3) = stlNormalWord buf j"
    unfolding jc stlNormalWord_def d m3 by cases (simp_all add: mult.commute)
qed

lemma stlTriangleLoop_result:
  assumes "84 + 50 * K \<le> length buf" "length vs = 9 * K" "length ns = 9 * K"
  shows "\<exists>vs' ns'. stlTriangleLoop buf K i vs ns = Inr (vs', ns') \<and>
           length vs' = 9 * K \<and> length ns' = 9 * K \<and>
           (\<forall>j < 9 * K. vs' ! j = (if 9 * i \<le> j then stlVertexWord buf j else vs ! j) \<and>
                         ns' ! j = (if 9 * i \<le> j then stlNormalWord buf j else ns ! j))"
  using assms(2,3)
proof (induction "K - i" arbitrary: i vs ns)
  case 0
  then have "\<not> i < K" by simp
  then have "stlTriangleLoop buf K i vs ns = Inr (vs, ns)"
    by (subst stlTriangleLoop.simps) simp
  moreover have "\<not> 9 * i \<le> j" if "j < 9 * K" for j using that \<open>\<not> i < K\<close> by simp
  ultimately show ?case using 0 by simp
next
  case (Suc n)
  then have iK: "i < K" by simp
  define vs1 where "vs1 = nineUpdates vs (i * 9) (\<lambda>c. wordAt buf (84 + i * 50 + 12 + 4 * c))"
  define ns1 where "ns1 = nineUpdates ns (i * 9) (\<lambda>c. [wordAt buf (84 + i * 50), wordAt buf (84 + i * 50 + 4),
                                        wordAt buf (84 + i * 50 + 8)] ! (c mod 3))"
  have step: "stlTriangleLoop buf K i vs ns = stlTriangleLoop buf K (i + 1) vs1 ns1"
    unfolding vs1_def ns1_def by (rule stlTriangleLoop_step[OF iK assms(1)])
  have n: "n = K - (i + 1)" using Suc(2) by simp
  have l1: "length vs1 = 9 * K" "length ns1 = 9 * K"
    using Suc.prems by (simp_all add: vs1_def ns1_def nineUpdates_length)
  from Suc(1)[OF n l1] obtain vs' ns' where r:
    "stlTriangleLoop buf K (i + 1) vs1 ns1 = Inr (vs', ns')" "length vs' = 9 * K" "length ns' = 9 * K"
    and nth: "\<And>j. j < 9 * K \<Longrightarrow>
        vs' ! j = (if 9 * (i + 1) \<le> j then stlVertexWord buf j else vs1 ! j) \<and>
        ns' ! j = (if 9 * (i + 1) \<le> j then stlNormalWord buf j else ns1 ! j)"
    by blast
  have b9: "i * 9 + 9 \<le> length vs" "i * 9 + 9 \<le> length ns" using iK Suc.prems by simp_all
  have "vs' ! j = (if 9 * i \<le> j then stlVertexWord buf j else vs ! j) \<and>
        ns' ! j = (if 9 * i \<le> j then stlNormalWord buf j else ns ! j)" if "j < 9 * K" for j
  proof (cases "9 * (i + 1) \<le> j")
    case True
    then show ?thesis using nth[OF that] by simp
  next
    case False
    then have e: "vs' ! j = vs1 ! j" "ns' ! j = ns1 ! j" using nth[OF that] by simp_all
    show ?thesis
    proof (cases "9 * i \<le> j")
      case True
      then have in9: "i * 9 \<le> j" "j < i * 9 + 9" using False by simp_all
      have "vs1 ! j = stlVertexWord buf j"
        unfolding vs1_def nineUpdates_nth[OF b9(1)] using in9 stl_record_words(1)[OF in9] by simp
      moreover have "ns1 ! j = stlNormalWord buf j"
        unfolding ns1_def nineUpdates_nth[OF b9(2)] using in9 stl_record_words(2)[OF in9] by simp
      ultimately show ?thesis using True by (simp add: e)
    next
      case F2: False
      then have out: "\<not> (i * 9 \<le> j \<and> j < i * 9 + 9)" by simp
      have "vs1 ! j = vs ! j"
        unfolding vs1_def nineUpdates_nth[OF b9(1)] using out by auto
      moreover have "ns1 ! j = ns ! j"
        unfolding ns1_def nineUpdates_nth[OF b9(2)] using out by auto
      ultimately show ?thesis using F2 by (simp add: e)
    qed
  qed
  then show ?case unfolding step using r by blast
qed


lemma stl_word_layout:
  assumes "v < 3" "c < 3"
  shows "stlVertexWord buf (9 * i + 3 * v + c) = wordAt buf (84 + 50 * i + 12 + 12 * v + 4 * c)"
    and "stlNormalWord buf (9 * i + 3 * v + c) = wordAt buf (84 + 50 * i + 4 * c)"
proof -
  have lt: "3 * v + c < 9" using assms by simp
  have d: "(9 * i + 3 * v + c) div 9 = i" using lt by simp
  have "(9 * i + (3 * v + c)) mod 9 = 3 * v + c" using lt by simp
  then have m: "(9 * i + 3 * v + c) mod 9 = 3 * v + c" by (simp only: add.assoc)
  have m3: "(9 * i + 3 * v + c) mod 3 = c" using assms(2) by presburger
  show "stlVertexWord buf (9 * i + 3 * v + c) = wordAt buf (84 + 50 * i + 12 + 12 * v + 4 * c)"
    unfolding stlVertexWord_def d m by (simp add: algebra_simps)
  show "stlNormalWord buf (9 * i + 3 * v + c) = wordAt buf (84 + 50 * i + 4 * c)"
    unfolding stlNormalWord_def d m3 by simp
qed

lemma parseSTL_binary:
  assumes "take 5 buffer \<noteq> solidMagic" and "getUint32 buffer 80 = Inr count"
    and "84 + 50 * unat count \<le> length buffer"
  shows "parseSTL parseSTLAscii buffer = Inr (stlDecoded buffer (unat count))"
proof -
  let ?K = "unat count"
  obtain vs ns where r:
    "stlTriangleLoop buffer ?K 0 (replicate (?K * 9) 0) (replicate (?K * 9) 0) = Inr (vs, ns)"
    "length vs = 9 * ?K" "length ns = 9 * ?K"
    and nth: "\<And>j. j < 9 * ?K \<Longrightarrow> vs ! j = stlVertexWord buffer j \<and> ns ! j = stlNormalWord buffer j"
    using stlTriangleLoop_result[OF assms(3), of "replicate (?K * 9) 0" "replicate (?K * 9) 0" 0]
    by auto
  have vs: "vs = map (stlVertexWord buffer) [0..<9 * ?K]"
    by (rule nth_equalityI) (use r(2) nth in simp_all)
  have ns: "ns = map (stlNormalWord buffer) [0..<9 * ?K]"
    by (rule nth_equalityI) (use r(3) nth in simp_all)
  have len: "\<not> length buffer < 5" using assms(3) by simp
  show ?thesis
    using assms(1,2) len r(1) by (simp add: parseSTL_def Let_def vs ns stlDecoded_def)
qed

lemma wordAt_update_other:
  "p < off \<or> off + 3 < p \<Longrightarrow> wordAt (buf[p := b]) off = wordAt buf off"
  by (auto simp: wordAt_def)

lemma stl_words_ignore_trailing:
  assumes "p = 84 + 50 * i + 48 \<or> p = 84 + 50 * i + 49"
  shows "stlVertexWord (buf[p := b]) j = stlVertexWord buf j"
    and "stlNormalWord (buf[p := b]) j = stlNormalWord buf j"
proof -
  let ?q = "j div 9"
  have m9: "j mod 9 < 9" and m3: "j mod 3 < 3" by simp_all
  consider "?q < i" | "?q = i" | "i < ?q" by linarith
  then have "(p < 84 + 50 * ?q + 12 + 4 * (j mod 9) \<or> 84 + 50 * ?q + 12 + 4 * (j mod 9) + 3 < p) \<and>
             (p < 84 + 50 * ?q + 4 * (j mod 3) \<or> 84 + 50 * ?q + 4 * (j mod 3) + 3 < p)"
  proof cases
    case 1
    then have "50 * ?q + 50 \<le> 50 * i" by simp
    then show ?thesis using assms m9 m3 by linarith
  next
    case 2
    then show ?thesis using assms m9 m3 by linarith
  next
    case 3
    then have "50 * i + 50 \<le> 50 * ?q" by simp
    then show ?thesis using assms m9 m3 by linarith
  qed
  then show "stlVertexWord (buf[p := b]) j = stlVertexWord buf j"
    and "stlNormalWord (buf[p := b]) j = stlNormalWord buf j"
    by (simp_all add: stlVertexWord_def stlNormalWord_def wordAt_update_other)
qed

lemma parseSTL_ignores_trailing:
  assumes "take 5 buffer \<noteq> solidMagic" and "getUint32 buffer 80 = Inr count"
    and "84 + 50 * unat count \<le> length buffer"
    and "p = 84 + 50 * i + 48 \<or> p = 84 + 50 * i + 49"
  shows "parseSTL parseSTLAscii (buffer[p := b]) = parseSTL parseSTLAscii buffer"
proof -
  have p: "83 < p" using assms(4) by auto
  have t: "take 5 (buffer[p := b]) \<noteq> solidMagic" using assms(1) p by simp
  have c: "getUint32 (buffer[p := b]) 80 = Inr count"
    using assms(2) p by (auto simp: getUint32_def split: if_splits)
  have l: "84 + 50 * unat count \<le> length (buffer[p := b])" using assms(3) by simp
  have "stlDecoded (buffer[p := b]) (unat count) = stlDecoded buffer (unat count)"
    by (simp add: stlDecoded_def stl_words_ignore_trailing[OF assms(4)])
  then show ?thesis
    using parseSTL_binary[OF t c l, of parseSTLAscii] parseSTL_binary[OF assms(1,2,3), of parseSTLAscii]
    by simp
qed

text \<open>
  Claim C6. Let a buffer not start with the five bytes of the textual marker, let its
  little-endian count field at byte 80 hold \<open>K\<close>, and let it hold the \<open>K\<close> records of 50
  bytes that follow the count. Then decoding succeeds and yields exactly \<open>K\<close> triangles:
  nine vertex components and nine normal components for each. Vertex \<open>v\<close> of triangle \<open>i\<close>
  has its component \<open>c\<close> read from byte \<open>84 + 50 * i + 12 + 12 * v + 4 * c\<close>, and all three
  vertices carry the normal whose component \<open>c\<close> is read from byte \<open>84 + 50 * i + 4 * c\<close>.
  The two bytes at offsets 48 and 49 of a record are ignored: changing them does not
  change the result.
\<close>

theorem stl_binary_decode:
  assumes "take 5 buffer \<noteq> solidMagic" and "getUint32 buffer 80 = Inr count"
    and "84 + 50 * unat count \<le> length buffer"
  shows "parseSTL parseSTLAscii buffer = Inr (stlDecoded buffer (unat count)) \<and>
     length (position (stlDecoded buffer (unat count))) = 9 * unat count \<and>
     length (normal (stlDecoded buffer (unat count))) = 9 * unat count \<and>
     (\<forall>i v c. i < unat count \<longrightarrow> v < 3 \<longrightarrow> c < 3 \<longrightarrow>
        position (stlDecoded buffer (unat count)) ! (9 * i + 3 * v + c)
          = wordAt buffer (84 + 50 * i + 12 + 12 * v + 4 * c) \<and>
        normal (stlDecoded buffer (unat count)) ! (9 * i + 3 * v + c)
          = wordAt buffer (84 + 50 * i + 4 * c)) \<and>
     (\<forall>i b. parseSTL parseSTLAscii (buffer[84 + 50 * i + 48 := b]) = parseSTL parseSTLAscii buffer \<and>
            parseSTL parseSTLAscii (buffer[84 + 50 * i + 49 := b]) = parseSTL parseSTLAscii buffer)"
proof (intro conjI allI impI)
  show "parseSTL parseSTLAscii buffer = Inr (stlDecoded buffer (unat count))"
    by (rule parseSTL_binary[OF assms])
next
  show "length (position (stlDecoded buffer (unat count))) = 9 * unat count"
    by (simp add: stlDecoded_def)
next
  show "length (normal (stlDecoded buffer (unat count))) = 9 * unat count"
    by (simp add: stlDecoded_def)
next
  fix i v c :: nat assume a: "i < unat count" "v < 3" "c < 3"
  have "3 * v + c < 9" using a by simp
  moreover have "9 * i + 9 \<le> 9 * unat count" using a(1) by simp
  ultimately have lt: "9 * i + 3 * v + c < 9 * unat count" by linarith
  show "position (stlDecoded buffer (unat count)) ! (9 * i + 3 * v + c)
          = wordAt buffer (84 + 50 * i + 12 + 12 * v + 4 * c)"
    using lt stl_word_layout(1)[OF a(2,3), of buffer i] by (simp add: stlDecoded_def)
  show "normal (stlDecoded buffer (unat count)) ! (9 * i + 3 * v + c)
          = wordAt buffer (84 + 50 * i + 4 * c)"
    using lt stl_word_layout(2)[OF a(2,3), of buffer i] by (simp add: stlDecoded_def)
next
  fix i b
  show "parseSTL parseSTLAscii (buffer[84 + 50 * i + 48 := b]) = parseSTL parseSTLAscii buffer"
    by (rule parseSTL_ignores_trailing[OF assms, where i = i]) simp
  show "parseSTL parseSTLAscii (buffer[84 + 50 * i + 49 := b]) = parseSTL parseSTLAscii buffer"
    by (rule parseSTL_ignores_trailing[OF assms, where i = i]) simp
qed

text \<open>
  The theorem at a buffer of one triangle whose record holds the bytes 0 to 49: the
  normal is made of bytes 0 to 11 and repeated for the three vertices, the vertices are
  made of bytes 12 to 47.
\<close>

theorem stl_binary_decode_witness:
  "take 5 exStl \<noteq> solidMagic \<and> getUint32 exStl 80 = Inr 1 \<and>
   84 + 50 * unat (1 :: 32 word) \<le> length exStl \<and>
   parseSTL (\<lambda>b. \<lparr>position = [], normal = []\<rparr>) exStl = Inr (stlDecoded exStl 1) \<and>
   stlDecoded exStl 1 =
     \<lparr>position = [0x0F0E0D0C, 0x13121110, 0x17161514, 0x1B1A1918, 0x1F1E1D1C, 0x23222120,
                  0x27262524, 0x2B2A2928, 0x2F2E2D2C],
      normal = [0x03020100, 0x07060504, 0x0B0A0908, 0x03020100, 0x07060504, 0x0B0A0908,
                0x03020100, 0x07060504, 0x0B0A0908]\<rparr>"
proof -
  have "take 5 exStl = [0, 0, 0, 0, 0]"
    by (simp add: exStl_def numeral_eq_Suc)
  then have h1: "take 5 exStl \<noteq> solidMagic" by (simp add: solidMagic_def)
  have h2: "getUint32 exStl 80 = Inr 1"
    by (simp add: exStl_def getUint32_def le32_def nth_append)
  have h3: "84 + 50 * unat (1 :: 32 word) \<le> length exStl"
    by (simp add: exStl_def)
  have d: "stlDecoded exStl 1 =
     \<lparr>position = [0x0F0E0D0C, 0x13121110, 0x17161514, 0x1B1A1918, 0x1F1E1D1C, 0x23222120,
                  0x27262524, 0x2B2A2928, 0x2F2E2D2C],
      normal = [0x03020100, 0x07060504, 0x0B0A0908, 0x03020100, 0x07060504, 0x0B0A0908,
                0x03020100, 0x07060504, 0x0B0A0908]\<rparr>"
    by (simp add: exStl_def le32_def stlDecoded_def stlVertexWord_def
        stlNormalWord_def wordAt_def nth_append upt_rec)
  show ?thesis
    using stl_binary_decode [OF h1 h2, of "\<lambda>b. \<lparr>position = [], normal = []\<rparr>"] h1 h2 h3 d
    by simp
qed

end
